theory Spec2Isabelle
  imports Complex_Main "HOL-Library.Sublist"
begin

section \<open>Strings\<close>

text \<open>
  JavaScript strings are modelled as \<^typ>\<open>string\<close>, one \<^typ>\<open>char\<close> per code unit.
  A \<^typ>\<open>char\<close> has eight bits, so the model covers the strings whose code units are
  below 256. In a regular expression without flags \<open>\d\<close> is exactly the ten ASCII
  digits, and the lookup table of the Coder step holds ASCII text only.
\<close>

definition is_digit :: "char \<Rightarrow> bool" where
  \<comment> \<open>the class \<open>\d\<close>\<close>
  "is_digit c = (c \<in> set ''0123456789'')"

definition is_sep :: "char \<Rightarrow> bool" where
  \<comment> \<open>the class \<open>[\/\-]\<close>\<close>
  "is_sep c = (c = CHR ''/'' \<or> c = CHR ''-'')"

definition padStart :: "nat \<Rightarrow> char \<Rightarrow> string \<Rightarrow> string" where
  \<comment> \<open>\<open>s.padStart(n, c)\<close> for a one-character filler\<close>
  "padStart n c s = replicate (n - length s) c @ s"

section \<open>Date normalisation (\<open>normalizeDOB\<close>, agents.ts)\<close>

text \<open>
  \<open>iso_match\<close> is the test \<open>dob.match(/^(\d{4})-(\d{2})-(\d{2})$/)\<close>: without the
  \<open>m\<close> flag \<open>^\<close> and \<open>$\<close> match only at the two ends of the input, so the whole string
  has ten characters.
\<close>

definition iso_match :: "string \<Rightarrow> bool" where
  "iso_match s =
     (length s = 10 \<and> list_all is_digit (take 4 s) \<and> s ! 4 = CHR ''-'' \<and>
      list_all is_digit (take 2 (drop 5 s)) \<and> s ! 7 = CHR ''-'' \<and>
      list_all is_digit (drop 8 s))"

text \<open>
  \<open>mdy_match\<close> is \<open>dob.match(/^(\d{1,2})[\/\-](\d{1,2})[\/\-](\d{2,4})$/)\<close> and returns the
  three groups. A digit is never a separator, so each group is the whole run of digits
  before the next separator: a run of three or more digits where one or two are allowed
  cannot be matched by backtracking either.
\<close>

definition mdy_match :: "string \<Rightarrow> (string \<times> string \<times> string) option" where
  "mdy_match s =
     (let mm = takeWhile is_digit s; r1 = dropWhile is_digit s in
      if length mm \<in> {1, 2} \<and> r1 \<noteq> [] \<and> is_sep (hd r1) then
        (let dd = takeWhile is_digit (tl r1); r2 = dropWhile is_digit (tl r1) in
         if length dd \<in> {1, 2} \<and> r2 \<noteq> [] \<and> is_sep (hd r2) \<and>
            list_all is_digit (tl r2) \<and> length (tl r2) \<in> {2, 3, 4}
         then Some (mm, dd, tl r2) else None)
      else None)"

definition normalizeDOB :: "string \<Rightarrow> string" where
  "normalizeDOB dob =
     (if iso_match dob then dob
      else case mdy_match dob of
        Some (mm, dd, yyyy) \<Rightarrow>
          (let y = (if length yyyy = 2 then ''19'' else '''') @ yyyy
           in padStart 4 (CHR ''0'') y @ ''-'' @ padStart 2 (CHR ''0'') mm @ ''-'' @
              padStart 2 (CHR ''0'') dd)
      | None \<Rightarrow> dob)"

text \<open>
  The two regular expressions, read as descriptions of the strings they accept:
  \<open>y-m-d\<close> with four, two and two digits, and \<open>mm a dd b yy\<close> with one or two, one or two
  and two to four digits around two separators.
\<close>

definition iso_parts :: "string \<Rightarrow> string \<Rightarrow> string \<Rightarrow> bool" where
  "iso_parts y m d =
     (length y = 4 \<and> length m = 2 \<and> length d = 2 \<and> list_all is_digit (y @ m @ d))"

definition mdy_parts :: "string \<Rightarrow> char \<Rightarrow> string \<Rightarrow> char \<Rightarrow> string \<Rightarrow> bool" where
  "mdy_parts mm a dd b yy =
     (list_all is_digit mm \<and> length mm \<in> {1, 2} \<and> is_sep a \<and>
      list_all is_digit dd \<and> length dd \<in> {1, 2} \<and> is_sep b \<and>
      list_all is_digit yy \<and> length yy \<in> {2, 3, 4})"

section \<open>More string operations\<close>

definition toLowerCase_char :: "char \<Rightarrow> char" where
  \<comment> \<open>\<open>toLowerCase\<close> on one code unit below 256: A to Z, and the Latin-1 capitals
      0xC0 to 0xDE without the multiplication sign 0xD7\<close>
  "toLowerCase_char c =
     (let n = (of_char c :: int) in
      if (65 \<le> n \<and> n \<le> 90) \<or> (192 \<le> n \<and> n \<le> 222 \<and> n \<noteq> 215)
      then char_of (n + 32) else c)"

definition toLowerCase :: "string \<Rightarrow> string" where
  "toLowerCase s = map toLowerCase_char s"

definition toUpperCase_char :: "char \<Rightarrow> char" where
  \<comment> \<open>only applied to the three severity names, which are lower-case ASCII letters\<close>
  "toUpperCase_char c =
     (let n = (of_char c :: int) in if 97 \<le> n \<and> n \<le> 122 then char_of (n - 32) else c)"

definition is_ws :: "char \<Rightarrow> bool" where
  \<comment> \<open>white space and line terminators below 256: TAB, LF, VT, FF, CR, space, NBSP\<close>
  "is_ws c = (c \<in> set [CHR 0x09, CHR 0x0A, CHR 0x0B, CHR 0x0C, CHR 0x0D, CHR '' '', CHR 0xA0])"

definition trim :: "string \<Rightarrow> string" where
  "trim s = rev (dropWhile is_ws (rev (dropWhile is_ws s)))"

definition string_includes :: "string \<Rightarrow> string \<Rightarrow> bool" where
  \<comment> \<open>\<open>s.includes(p)\<close>: \<open>p\<close> occurs in \<open>s\<close> as a contiguous run\<close>
  "string_includes s p = sublist p s"

section \<open>JSON values, failures and the external services\<close>

text \<open>
  \<open>json\<close> is a value as \<open>JSON.parse\<close> returns it: the request body and every answer of
  the language model. A number is held as the text JavaScript prints for it; no step
  computes with such a number. \<open>json_get v k\<close> is the read \<open>v.k\<close> for the property names
  the code uses, none of which exists on a prototype: a later duplicate key wins inside
  an object, and anything that is not an object has no such property. (Reading a property
  of \<open>null\<close> raises; every place that can meet \<open>null\<close> treats it separately.)
\<close>

datatype json =
  JNull | JBool bool | JNum string | JStr string | JArr "json list" | JObj "(string \<times> json) list"

definition json_get :: "json \<Rightarrow> string \<Rightarrow> json option" where
  "json_get v k = (case v of JObj kvs \<Rightarrow> map_of (rev kvs) k | _ \<Rightarrow> None)"

definition join :: "string \<Rightarrow> string list \<Rightarrow> string" where
  "join sep xs = (case xs of [] \<Rightarrow> [] | y # ys \<Rightarrow> y @ concat (map (\<lambda>z. sep @ z) ys))"

text \<open>
  What a step can throw: a \<open>TypeError\<close> of the runtime, a \<open>ZodError\<close> of a failed schema
  check, or whatever an external call failed with (\<open>Failed\<close>, with its message). All of
  them are \<open>Error\<close> objects with a message. \<open>askGeminiJSON\<close> (gemini.ts) performs a network
  call and parses the answer; its outcome for each of the call sites is an input of the
  model, as is the outcome of \<open>req.json()\<close>.
\<close>

datatype failure = TypeError | ZodError | Failed string

text \<open>
  \<open>js_toString\<close> is the conversion a template literal applies to an interpolated value.
  An object is converted by its \<open>toString\<close> method and, failing that, its \<open>valueOf\<close>.
  An object that \<open>JSON.parse\<close> built inherits both from \<open>Object.prototype\<close> and is
  printed as \<open>[object Object]\<close>, unless it has an own property \<open>toString\<close>: that value
  is never a function, the inherited \<open>valueOf\<close> (or an own one, not a function either)
  yields no primitive, and the conversion raises a \<open>TypeError\<close>. An array is converted
  by \<open>join\<close>, which prints \<open>null\<close> as the empty string and converts every other
  element in the same way, so it raises when one of them does.
\<close>

fun js_toString :: "json \<Rightarrow> failure + string" where
  "js_toString JNull = Inr ''null''"
| "js_toString (JBool b) = Inr (if b then ''true'' else ''false'')"
| "js_toString (JNum t) = Inr t"
| "js_toString (JStr s) = Inr s"
| "js_toString (JArr xs) =
     (let parts = map (\<lambda>x. if x = JNull then Inr [] else js_toString x) xs
      in if list_ex isl parts then Inl TypeError else Inr (join '','' (map projr parts)))"
| "js_toString (JObj kvs) =
     (if ''toString'' \<in> fst ` set kvs then Inl TypeError else Inr ''[object Object]'')"

type_synonym reply = "failure + json"

section \<open>Schemas (schemas.ts)\<close>

datatype severity = Info | Warn | Error

text \<open>
  The declared type of \<open>message\<close> is \<open>string\<close>, but the Verifier stores the elements of
  the model's \<open>notes\<close> array as they come, so at run time a message is any JSON value.
\<close>

record VerificationIssue =
  field :: string
  message :: json
  severity :: severity

record AgentLog =
  agent :: string
  step :: string
  detail :: string

datatype status = READY | BLOCKED

text \<open>
  The field \<open>notes\<close> of a draft is called \<open>draft_notes\<close>, as \<open>notes\<close> is a reserved
  word here (and so is \<open>includes\<close>, hence \<open>string_includes\<close> above).
\<close>

record SubmissionDraft =
  patient :: string
  dob :: string
  insuranceId :: "string option"
  procedure :: string
  cptCode :: "string option"
  status :: status
  draft_notes :: "string list"

text \<open>
  \<open>insuranceId\<close> and \<open>cptCode\<close> are \<open>z.string().optional().nullable()\<close>. \<open>None\<close> stands
  for both a missing property and \<open>null\<close>: the code only applies \<open>!\<close>, \<open>&&\<close> and \<open>??\<close>
  to them, which do not tell the two apart.
\<close>

record ClaimInput =
  patientName :: string
  dob :: string
  insuranceId :: "string option"
  procedure :: string
  cptCode :: "string option"

definition req_string :: "json option \<Rightarrow> string option" where
  \<comment> \<open>\<open>z.string()\<close>\<close>
  "req_string v = (case v of Some (JStr s) \<Rightarrow> Some s | _ \<Rightarrow> None)"

definition opt_string :: "json option \<Rightarrow> string option option" where
  \<comment> \<open>\<open>z.string().optional().nullable()\<close>; the outer \<open>None\<close> is a value of a wrong type\<close>
  "opt_string v =
     (case v of None \<Rightarrow> Some None | Some JNull \<Rightarrow> Some None | Some (JStr s) \<Rightarrow> Some (Some s)
      | Some _ \<Rightarrow> None)"

definition ClaimInputSchema_parse :: "json \<Rightarrow> failure + ClaimInput" where
  "ClaimInputSchema_parse v =
     (case v of
        JObj kvs \<Rightarrow>
          (let n = req_string (json_get v ''patientName'');
               d = req_string (json_get v ''dob'');
               i = opt_string (json_get v ''insuranceId'');
               p = req_string (json_get v ''procedure'');
               c = opt_string (json_get v ''cptCode'')
           in if n \<noteq> None \<and> d \<noteq> None \<and> i \<noteq> None \<and> p \<noteq> None \<and> c \<noteq> None
              then Inr \<lparr>patientName = the n, dob = the d, insuranceId = the i,
                        procedure = the p, cptCode = the c\<rparr>
              else Inl ZodError)
      | _ \<Rightarrow> Inl ZodError)"

definition ClaimInputSchema_safeParse :: "json \<Rightarrow> ClaimInput option" where
  "ClaimInputSchema_safeParse v =
     (case ClaimInputSchema_parse v of Inr c \<Rightarrow> Some c | Inl _ \<Rightarrow> None)"

definition SubmissionDraftSchema_parse :: "SubmissionDraft \<Rightarrow> failure + SubmissionDraft" where
  \<comment> \<open>every field of the record already has the type the schema asks for\<close>
  "SubmissionDraftSchema_parse d = Inr d"

section \<open>The agents (agents.ts)\<close>

definition pushLog :: "AgentLog list \<Rightarrow> AgentLog \<Rightarrow> AgentLog list" where
  \<comment> \<open>\<open>logs.push(...)\<close>; the payload and the time stamp of an entry are not modelled\<close>
  "pushLog logs entry = logs @ [entry]"

definition is_object :: "json \<Rightarrow> bool" where
  \<comment> \<open>\<open>typeof input === "object" && input\<close>\<close>
  "is_object v = (case v of JObj _ \<Rightarrow> True | JArr _ \<Rightarrow> True | _ \<Rightarrow> False)"

definition parserAgent :: "json \<Rightarrow> reply \<Rightarrow> AgentLog list \<Rightarrow> failure + ClaimInput \<times> AgentLog list" where
  "parserAgent input reply logs =
     (case (if is_object input then ClaimInputSchema_safeParse input else None) of
        Some parsed \<Rightarrow>
          (let normalized = parsed\<lparr>dob := normalizeDOB (dob parsed)\<rparr>
           in Inr (normalized,
                   pushLog logs \<lparr>agent = ''ParserAgent'', step = ''parse-json'',
                                 detail = ''Parsed JSON claim.''\<rparr>))
      | None \<Rightarrow>
          (case reply of
             Inl e \<Rightarrow> Inl e
           | Inr json \<Rightarrow>
               (case json of
                  JObj kvs \<Rightarrow>
                    (case json_get json ''dob'' of
                       Some (JStr d) \<Rightarrow>
                         (case ClaimInputSchema_parse
                                 (JObj (kvs @ [(''dob'', JStr (normalizeDOB d))])) of
                            Inl e \<Rightarrow> Inl e
                          | Inr result \<Rightarrow>
                              Inr (result,
                                   pushLog logs \<lparr>agent = ''ParserAgent'', step = ''parse-text'',
                                                 detail = ''Parsed text claim.''\<rparr>))
                     | _ \<Rightarrow> Inl TypeError)
                | _ \<Rightarrow> Inl TypeError)))"

record VerifierResult =
  issues :: "VerificationIssue list"
  normalized :: ClaimInput

definition verifier_notes :: "reply \<Rightarrow> json list" where
  \<comment> \<open>the \<open>try\<close> block: any failure, also the read \<open>res.notes\<close> on \<open>null\<close>, leaves \<open>[]\<close>\<close>
  "verifier_notes reply =
     (case reply of
        Inl _ \<Rightarrow> []
      | Inr res \<Rightarrow> (case json_get res ''notes'' of Some (JArr ns) \<Rightarrow> take 3 ns | _ \<Rightarrow> []))"

definition verifierAgent :: "ClaimInput \<Rightarrow> reply \<Rightarrow> AgentLog list \<Rightarrow> VerifierResult \<times> AgentLog list" where
  "verifierAgent claim reply logs =
     (let issues1 =
            (if insuranceId claim = None \<or> insuranceId claim = Some '''' \<or>
                trim (the (insuranceId claim)) = ''''
             then [\<lparr>field = ''insuranceId'', message = JStr ''Missing insurance ID.'',
                     severity = Error\<rparr>] else []);
          issues2 =
            (if dob claim = ''''
             then [\<lparr>field = ''dob'', message = JStr ''DOB missing or invalid format.'',
                     severity = Warn\<rparr>] else []);
          issues3 =
            (if patientName claim = ''''
             then [\<lparr>field = ''patientName'', message = JStr ''Patient name missing.'',
                     severity = Error\<rparr>] else []);
          issues4 =
            (if procedure claim = ''''
             then [\<lparr>field = ''procedure'', message = JStr ''Procedure missing.'',
                     severity = Error\<rparr>] else []);
          notes = verifier_notes reply;
          issues5 = map (\<lambda>n. \<lparr>field = ''general'', message = n, severity = Info\<rparr>) notes;
          all_issues = issues1 @ issues2 @ issues3 @ issues4 @ issues5
      in (\<lparr>issues = all_issues, normalized = claim\<rparr>,
          pushLog logs \<lparr>agent = ''VerifierAgent'', step = ''validate'',
                        detail = ''Validated fields & consistency.''\<rparr>))"

record CptEntry =
  label :: string
  procedures :: "string list"

definition CPT_REF :: "(string \<times> CptEntry) list" where
  \<comment> \<open>the object literal, its properties in the order they are written\<close>
  "CPT_REF =
     [(''73721'', \<lparr>label = ''MRI Lower Extremity w/o contrast'',
                   procedures = [''mri knee'', ''knee mri'']\<rparr>),
      (''70551'', \<lparr>label = ''MRI Brain w/o contrast'',
                   procedures = [''mri brain'', ''brain mri'']\<rparr>),
      (''72148'', \<lparr>label = ''MRI Lumbar Spine w/o contrast'',
                   procedures = [''mri spine'', ''lumbar mri'']\<rparr>)]"

text \<open>
  \<open>CPT_REF\<close> is an ordinary object, so two rules of the language decide what the Coder
  sees. First, \<open>Object.entries\<close> lists own properties in the order of
  \<open>OrdinaryOwnPropertyKeys\<close>: the keys that are array indices (canonical decimal numerals
  below \<open>2^32 - 1\<close>) in ascending numeric order, then the other string keys in the order
  they were created. Second, the read \<open>CPT_REF[k]\<close> follows the prototype chain: for a
  name that \<open>Object.prototype\<close> defines it yields that inherited member, a function or an
  object, which is truthy and has no \<open>procedures\<close>.
\<close>

definition decimal_value :: "string \<Rightarrow> int" where
  "decimal_value s = foldl (\<lambda>n c. 10 * n + (of_char c - 48)) 0 s"

definition is_array_index :: "string \<Rightarrow> bool" where
  "is_array_index k =
     (k = ''0'' \<or>
      (k \<noteq> [] \<and> list_all is_digit k \<and> hd k \<noteq> CHR ''0'' \<and> decimal_value k < 2 ^ 32 - 1))"

definition Object_entries :: "(string \<times> 'a) list \<Rightarrow> (string \<times> 'a) list" where
  "Object_entries obj =
     sort_key (\<lambda>kv. decimal_value (fst kv)) (filter (\<lambda>kv. is_array_index (fst kv)) obj) @
     filter (\<lambda>kv. \<not> is_array_index (fst kv)) obj"

definition Object_prototype_names :: "string list" where
  "Object_prototype_names =
     [''constructor'', ''hasOwnProperty'', ''isPrototypeOf'', ''propertyIsEnumerable'',
      ''toLocaleString'', ''toString'', ''valueOf'', ''__proto__'', ''__defineGetter__'',
      ''__defineSetter__'', ''__lookupGetter__'', ''__lookupSetter__'']"

datatype 'a property = Absent | Own 'a | Inherited

definition CPT_REF_get :: "string \<Rightarrow> CptEntry property" where
  \<comment> \<open>\<open>CPT_REF[k]\<close>\<close>
  "CPT_REF_get k =
     (case map_of CPT_REF k of
        Some e \<Rightarrow> Own e
      | None \<Rightarrow> if k \<in> set Object_prototype_names then Inherited else Absent)"

definition matches :: "string \<Rightarrow> CptEntry \<Rightarrow> bool" where
  \<comment> \<open>\<open>v.procedures.some((p) => proc.includes(p))\<close>\<close>
  "matches proc v = list_ex (\<lambda>p. string_includes proc p) (procedures v)"

definition coder_valid :: "ClaimInput \<Rightarrow> failure + bool" where
  \<comment> \<open>the flag \<open>valid\<close> after the first \<open>if\<close>; reading \<open>.some\<close> of an inherited
      member's missing \<open>procedures\<close> raises a \<open>TypeError\<close>\<close>
  "coder_valid claim =
     (let proc = trim (toLowerCase (procedure claim)) in
      case cptCode claim of
        None \<Rightarrow> Inr False
      | Some code \<Rightarrow>
          if code = '''' then Inr False
          else (case CPT_REF_get code of
                  Absent \<Rightarrow> Inr False
                | Own e \<Rightarrow> Inr (matches proc e)
                | Inherited \<Rightarrow> Inl TypeError))"

definition coder_suggested :: "ClaimInput \<Rightarrow> bool \<Rightarrow> string option" where
  \<comment> \<open>the variable \<open>suggested\<close> after the second \<open>if\<close>\<close>
  "coder_suggested claim valid =
     (let proc = trim (toLowerCase (procedure claim)) in
      if \<not> valid
      then map_option fst (find (\<lambda>kv. matches proc (snd kv)) (Object_entries CPT_REF))
      else cptCode claim)"

record CoderResult =
  suggestedCpt :: "string option"
  justification :: string
  valid :: bool

definition coder_justification :: "reply \<Rightarrow> string" where
  "coder_justification reply =
     (case reply of
        Inl _ \<Rightarrow> ''Heuristic CPT validation completed.''
      | Inr j \<Rightarrow> (case json_get j ''justification'' of
                    Some (JStr s) \<Rightarrow> s
                  | _ \<Rightarrow> ''Heuristic CPT validation completed.''))"

definition coderAgent :: "ClaimInput \<Rightarrow> reply \<Rightarrow> AgentLog list \<Rightarrow> failure + CoderResult \<times> AgentLog list" where
  "coderAgent claim reply logs =
     (case coder_valid claim of
        Inl e \<Rightarrow> Inl e
      | Inr v \<Rightarrow>
          (let suggested = coder_suggested claim v;
               j = coder_justification reply
           in Inr (\<lparr>suggestedCpt = suggested, justification = j, valid = v\<rparr>,
                   pushLog logs \<lparr>agent = ''CoderAgent'', step = ''code-validate'',
                                 detail = ''Validated/suggested CPT code.''\<rparr>)))"

definition severity_name :: "severity \<Rightarrow> string" where
  "severity_name s = (case s of Info \<Rightarrow> ''info'' | Warn \<Rightarrow> ''warn'' | Error \<Rightarrow> ''error'')"

definition issue_note :: "VerificationIssue \<Rightarrow> failure + string" where
  \<comment> \<open>the template literal \<open>`${i.severity.toUpperCase()}: ${i.message}`\<close>\<close>
  "issue_note i =
     (case js_toString (message i) of
        Inl e \<Rightarrow> Inl e
      | Inr m \<Rightarrow> Inr (map toUpperCase_char (severity_name (severity i)) @ '': '' @ m))"

definition submissionAgent ::
  "ClaimInput \<Rightarrow> VerificationIssue list \<Rightarrow> string option \<Rightarrow> AgentLog list
     \<Rightarrow> failure + SubmissionDraft \<times> AgentLog list" where
  \<comment> \<open>building the draft raises as soon as one message cannot be converted\<close>
  "submissionAgent claim issue_list suggested logs =
     (let blocked = list_ex (\<lambda>i. severity i = Error) issue_list;
          notes = map issue_note issue_list
      in if list_ex isl notes then Inl TypeError
         else
           (let draft = \<lparr>patient = patientName claim,
                         SubmissionDraft.dob = dob claim,
                         SubmissionDraft.insuranceId = insuranceId claim,
                         SubmissionDraft.procedure = procedure claim,
                         SubmissionDraft.cptCode =
                           (case suggested of Some s \<Rightarrow> Some s | None \<Rightarrow> cptCode claim),
                         status = (if blocked then BLOCKED else READY),
                         draft_notes = map projr notes\<rparr>
            in case SubmissionDraftSchema_parse draft of
                 Inl e \<Rightarrow> Inl e
               | Inr validated \<Rightarrow>
                   Inr (validated,
                        pushLog logs \<lparr>agent = ''SubmissionAgent'', step = ''draft'',
                                      detail = ''Prepared submission draft.''\<rparr>)))"

datatype risk = Low | Medium | High

record ReviewerResult =
  denialRisk :: risk
  rationale :: string

definition falsy :: "string option \<Rightarrow> bool" where
  \<comment> \<open>\<open>!x\<close> for a string or \<open>null\<close>\<close>
  "falsy x = (x = None \<or> x = Some '''')"

definition reviewer_rationale :: "reply \<Rightarrow> string" where
  "reviewer_rationale reply =
     (case reply of
        Inl _ \<Rightarrow> ''Automated review completed.''
      | Inr r \<Rightarrow> (case json_get r ''rationale'' of
                    Some (JStr s) \<Rightarrow> s
                  | _ \<Rightarrow> ''Automated review completed.''))"

definition reviewerAgent :: "SubmissionDraft \<Rightarrow> reply \<Rightarrow> AgentLog list \<Rightarrow> ReviewerResult \<times> AgentLog list" where
  "reviewerAgent submission reply logs =
     (let risk =
            (if status submission = BLOCKED then High
             else if falsy (SubmissionDraft.insuranceId submission) \<or>
                     falsy (SubmissionDraft.cptCode submission) then Medium
             else Low)
      in (\<lparr>denialRisk = risk, rationale = reviewer_rationale reply\<rparr>,
          pushLog logs \<lparr>agent = ''ReviewerAgent'', step = ''review'',
                        detail = ''Assessed denial risk.''\<rparr>))"

text \<open>
  The recap is either the model's text, trimmed, or the fixed six-line text, which is
  determined by the five values interpolated into it and is represented by them.
  \<open>humanExplain\<close> is private to agents.ts and called once, after the Submission step.
  Its snapshot converts the issue messages to strings a second time; the Submission step
  has converted each of them before, so this conversion does not raise there.
\<close>

datatype explanation = Recap string | FallbackRecap "string option" status risk int int

definition humanExplain ::
  "string option \<Rightarrow> SubmissionDraft \<Rightarrow> ReviewerResult \<Rightarrow> int \<Rightarrow> int \<Rightarrow> reply \<Rightarrow> explanation" where
  "humanExplain suggested submission reviewer timeSaved cleanRate reply =
     (let cpt = (if \<not> falsy suggested then suggested
                 else if \<not> falsy (SubmissionDraft.cptCode submission)
                 then SubmissionDraft.cptCode submission else None);
          fallback = FallbackRecap cpt (status submission) (denialRisk reviewer) timeSaved cleanRate
      in case reply of
           Inl _ \<Rightarrow> fallback
         | Inr j \<Rightarrow> (case json_get j ''text'' of Some (JStr t) \<Rightarrow> Recap (trim t) | _ \<Rightarrow> fallback))"

section \<open>The orchestrator (\<open>runWorkflow\<close>, agents.ts)\<close>

text \<open>
  Numbers are IEEE binary64 doubles. Every finite double is a rational number, and an
  arithmetic operation returns the double nearest to the exact result, a tie going to
  the even significand. Around \<open>x\<close> the doubles are the multiples of \<open>2^p\<close> with
  \<open>p = \<lfloor>log\<^sub>2 \<bar>x\<bar>\<rfloor> - 52\<close>, and of \<open>2^-1074\<close> in the subnormal range. A result beyond
  the largest double would be an infinity; none arises here, where the operands are
  clock readings, which are not negative, and the constants of the code.
\<close>

function ilog2 :: "int \<Rightarrow> int" where
  \<comment> \<open>\<open>\<lfloor>log\<^sub>2 n\<rfloor>\<close> for \<open>n \<ge> 1\<close>\<close>
  "ilog2 n = (if n \<le> 1 then 0 else 1 + ilog2 (n div 2))"
  by auto
termination
  by (relation "measure nat") auto

declare ilog2.simps [simp del]

definition floor_log2 :: "rat \<Rightarrow> int" where
  \<comment> \<open>\<open>\<lfloor>log\<^sub>2 x\<rfloor>\<close> for \<open>x > 0\<close>\<close>
  "floor_log2 x =
     (let (a, b) = quotient_of x; e = ilog2 a - ilog2 b
      in if power_int 2 e \<le> x then e else e - 1)"

definition round_half_even :: "rat \<Rightarrow> int" where
  "round_half_even x =
     (let n = \<lfloor>x\<rfloor>; r = x - of_int n
      in if r < 1 / 2 then n else if 1 / 2 < r then n + 1 else if even n then n else n + 1)"

definition ulp_exponent :: "rat \<Rightarrow> int" where
  "ulp_exponent x = max (- 1074) (floor_log2 \<bar>x\<bar> - 52)"

definition fl :: "rat \<Rightarrow> rat" where
  \<comment> \<open>the double nearest to \<open>x\<close>\<close>
  "fl x =
     (if x = 0 then 0
      else let u = power_int 2 (ulp_exponent x) in of_int (round_half_even (x / u)) * u)"

definition double_sub :: "rat \<Rightarrow> rat \<Rightarrow> rat" where
  "double_sub a b = fl (a - b)"

definition double_mul :: "rat \<Rightarrow> rat \<Rightarrow> rat" where
  "double_mul a b = fl (a * b)"

definition double_div :: "rat \<Rightarrow> rat \<Rightarrow> rat" where
  "double_div a b = fl (a / b)"

text \<open>
  One run reads the clock twice and calls the language model at most once at each of
  five places. These outcomes are the environment of a run. A clock reading is in
  milliseconds, not negative and below \<open>2^1024\<close>; it is written as a rational number
  and stands for the double nearest to it, as a numeric literal does.
\<close>

record env =
  parse_reply :: reply
  verify_reply :: reply
  coder_reply :: reply
  review_reply :: reply
  explain_reply :: reply
  now_before :: rat
  now_after :: rat

definition Math_round :: "rat \<Rightarrow> int" where
  \<comment> \<open>the nearest integer, a tie going up; \<open>Math.round\<close> computes it without rounding error\<close>
  "Math_round x = \<lfloor>x + 1 / 2\<rfloor>"

record Metrics =
  baselineSeconds :: rat
  automatedSeconds :: int
  timeSavedPercent :: int
  cleanClaimRate :: int

record WorkflowResponse =
  parsed :: ClaimInput
  verified :: VerifierResult
  coder :: CoderResult
  submission :: SubmissionDraft
  reviewer :: ReviewerResult
  metrics :: Metrics
  logs :: "AgentLog list"
  explanation :: explanation

definition runWorkflow :: "json \<Rightarrow> env \<Rightarrow> failure + WorkflowResponse" where
  "runWorkflow input e =
     (case parserAgent input (parse_reply e) [] of
        Inl err \<Rightarrow> Inl err
      | Inr (p, logs1) \<Rightarrow>
     (case verifierAgent p (verify_reply e) logs1 of (v, logs2) \<Rightarrow>
     (case coderAgent p (coder_reply e) logs2 of
        Inl err \<Rightarrow> Inl err
      | Inr (c, logs3) \<Rightarrow>
     (case submissionAgent p (issues v) (suggestedCpt c) logs3 of
        Inl err \<Rightarrow> Inl err
      | Inr (s, logs4) \<Rightarrow>
     (case reviewerAgent s (review_reply e) logs4 of (r, logs5) \<Rightarrow>
     (let t0 = fl (now_before e);
          t1 = fl (now_after e);
          automatedMs = double_sub t1 t0;
          baseline = double_div (double_mul 12 60) 10;
          automated = max 1 (Math_round (double_div automatedMs 1000));
          timeSaved =
            Math_round (double_mul (double_sub 1 (double_div (of_int automated) baseline)) 100);
          cleanRate = (if status s = READY then 98 else 82);
          recap = humanExplain (suggestedCpt c) s r timeSaved cleanRate (explain_reply e)
      in Inr \<lparr>parsed = p, verified = v, coder = c, submission = s, reviewer = r,
               metrics = \<lparr>baselineSeconds = baseline, automatedSeconds = automated,
                           timeSavedPercent = timeSaved, cleanClaimRate = cleanRate\<rparr>,
               logs = logs5, explanation = recap\<rparr>))))))"

section \<open>The two route handlers\<close>

definition WorkflowResponseSchema_parse :: "WorkflowResponse \<Rightarrow> failure + WorkflowResponse" where
  \<comment> \<open>the one field whose run-time value can miss its schema is an issue's message\<close>
  "WorkflowResponseSchema_parse r =
     (if list_all (\<lambda>i. case message i of JStr _ \<Rightarrow> True | _ \<Rightarrow> False) (issues (verified r))
      then Inr r else Inl ZodError)"

text \<open>
  A response is \<open>NextResponse.json(body, {status})\<close>. \<open>ErrorBody e\<close> is the object
  \<open>{error: m}\<close> with \<open>m\<close> the message of \<open>e\<close>.
\<close>

datatype body = Payload WorkflowResponse | ErrorBody failure

datatype response = NextResponse_json body nat

definition response_status :: "response \<Rightarrow> nat" where
  "response_status r = (case r of NextResponse_json b s \<Rightarrow> s)"

definition response_body :: "response \<Rightarrow> body" where
  "response_body r = (case r of NextResponse_json b s \<Rightarrow> b)"

definition input_of :: "json \<Rightarrow> json" where
  \<comment> \<open>\<open>body?.input ?? body\<close>\<close>
  "input_of b = (case json_get b ''input'' of None \<Rightarrow> b | Some JNull \<Rightarrow> b | Some v \<Rightarrow> v)"

definition respond :: "json \<Rightarrow> env \<Rightarrow> response" where
  \<comment> \<open>the rest of the \<open>try\<close> block once the input is known, and the \<open>catch\<close>\<close>
  "respond input e =
     (case runWorkflow input e of
        Inl err \<Rightarrow> NextResponse_json (ErrorBody err) 400
      | Inr result \<Rightarrow>
          (case WorkflowResponseSchema_parse result of
             Inl err \<Rightarrow> NextResponse_json (ErrorBody err) 400
           | Inr validated \<Rightarrow> NextResponse_json (Payload validated) 200))"

definition POST_part_000 :: "failure + json \<Rightarrow> env \<Rightarrow> response" where
  \<comment> \<open>\<open>req.json().catch(() => ({}))\<close>: a body that does not parse becomes \<open>{}\<close>\<close>
  "POST_part_000 req_json e =
     (let b = (case req_json of Inl _ \<Rightarrow> JObj [] | Inr v \<Rightarrow> v)
      in respond (input_of b) e)"

definition POST_part_001 :: "failure + json \<Rightarrow> env \<Rightarrow> response" where
  \<comment> \<open>\<open>await req.json()\<close> inside the \<open>try\<close>\<close>
  "POST_part_001 req_json e =
     (case req_json of
        Inl err \<Rightarrow> NextResponse_json (ErrorBody err) 400
      | Inr b \<Rightarrow> respond (input_of b) e)"

section \<open>The specification's wording, for comparison\<close>

definition first_match_in_declaration_order :: "string \<Rightarrow> string option" where
  \<comment> \<open>the scan as the specification describes it: the table in the order it is written\<close>
  "first_match_in_declaration_order proc = map_option fst (find (\<lambda>kv. matches proc (snd kv)) CPT_REF)"

definition floored_seconds :: "rat \<Rightarrow> int" where
  \<comment> \<open>the automated duration as the specification describes it\<close>
  "floored_seconds d = max 1 \<lfloor>d / 1000\<rfloor>"

section \<open>Example inputs\<close>

text \<open>The two end-to-end scenarios of the specification, and a language model that is down.\<close>

definition john_doe_json :: json where
  "john_doe_json =
     JObj [(''patientName'', JStr ''John Doe''), (''dob'', JStr ''01/01/1975''),
           (''insuranceId'', JStr ''''), (''procedure'', JStr ''MRI Knee''),
           (''cptCode'', JStr ''73721'')]"

definition john_doe :: ClaimInput where
  "john_doe = \<lparr>patientName = ''John Doe'', dob = ''1975-01-01'', insuranceId = Some '''',
               procedure = ''MRI Knee'', cptCode = Some ''73721''\<rparr>"

definition aaron_lee_json :: json where
  "aaron_lee_json =
     JObj [(''patientName'', JStr ''Aaron Lee''), (''dob'', JStr ''1979-11-02''),
           (''insuranceId'', JStr ''ZX-991144''), (''procedure'', JStr ''MRI Lumbar Spine''),
           (''cptCode'', JStr ''72148'')]"

definition aaron_lee :: ClaimInput where
  "aaron_lee = \<lparr>patientName = ''Aaron Lee'', dob = ''1979-11-02'',
                insuranceId = Some ''ZX-991144'', procedure = ''MRI Lumbar Spine'',
                cptCode = Some ''72148''\<rparr>"

definition aaron_lee_draft :: "string option \<Rightarrow> status \<Rightarrow> SubmissionDraft" where
  "aaron_lee_draft code st =
     \<lparr>patient = ''Aaron Lee'', SubmissionDraft.dob = ''1979-11-02'',
       SubmissionDraft.insuranceId = Some ''ZX-991144'',
       SubmissionDraft.procedure = ''MRI Lumbar Spine'',
       SubmissionDraft.cptCode = code, status = st, draft_notes = []\<rparr>"

definition offline :: reply where
  "offline = Inl (Failed ''fetch failed'')"

definition all_offline :: "rat \<Rightarrow> rat \<Rightarrow> env" where
  \<comment> \<open>every call to the language model fails; the clock reads \<open>a\<close>, then \<open>b\<close>\<close>
  "all_offline a b =
     \<lparr>parse_reply = offline, verify_reply = offline, coder_reply = offline,
       review_reply = offline, explain_reply = offline, now_before = a, now_after = b\<rparr>"

section \<open>Properties of date normalisation\<close>

lemma sep_not_digit: "is_sep c \<Longrightarrow> \<not> is_digit c"
  by (auto simp: is_sep_def is_digit_def)

lemma takeWhile_digits:
  "list_all is_digit xs \<Longrightarrow> is_sep a \<Longrightarrow> takeWhile is_digit (xs @ a # r) = xs"
  by (induction xs) (auto simp: sep_not_digit)

lemma dropWhile_digits:
  "list_all is_digit xs \<Longrightarrow> is_sep a \<Longrightarrow> dropWhile is_digit (xs @ a # r) = a # r"
  by (induction xs) (auto simp: sep_not_digit)

lemma mdy_match_parts:
  "mdy_parts mm a dd b yy \<Longrightarrow> mdy_match (mm @ a # dd @ b # yy) = Some (mm, dd, yy)"
  by (simp add: mdy_match_def mdy_parts_def takeWhile_digits dropWhile_digits Let_def)

lemma mdy_match_SomeD:
  assumes "mdy_match s = Some (mm, dd, yy)"
  shows "\<exists>a b. s = mm @ a # dd @ b # yy \<and> mdy_parts mm a dd b yy"
proof -
  define r1 where "r1 = dropWhile is_digit s"
  define r2 where "r2 = dropWhile is_digit (tl r1)"
  from assms have mm: "mm = takeWhile is_digit s" and dd: "dd = takeWhile is_digit (tl r1)"
    and yy: "yy = tl r2" and c: "length mm \<in> {1, 2}" "r1 \<noteq> []" "is_sep (hd r1)"
      "length dd \<in> {1, 2}" "r2 \<noteq> []" "is_sep (hd r2)" "list_all is_digit yy"
      "length yy \<in> {2, 3, 4}"
    unfolding mdy_match_def r1_def r2_def Let_def by (auto split: if_splits)
  have "s = mm @ r1" by (simp add: mm r1_def)
  moreover have "r1 = hd r1 # tl r1" using c by simp
  moreover have "tl r1 = dd @ r2" by (simp add: dd r2_def)
  moreover have "r2 = hd r2 # yy" using c yy by simp
  ultimately have "s = mm @ hd r1 # dd @ hd r2 # yy" by metis
  moreover have "list_all is_digit mm" "list_all is_digit dd"
    by (simp_all add: mm dd list_all_iff) (metis set_takeWhileD)+
  ultimately show ?thesis using c unfolding mdy_parts_def by blast
qed

lemma mdy_match_iff:
  "mdy_match s \<noteq> None \<longleftrightarrow> (\<exists>mm a dd b yy. mdy_parts mm a dd b yy \<and> s = mm @ a # dd @ b # yy)"
proof
  assume "mdy_match s \<noteq> None"
  then obtain mm dd yy where "mdy_match s = Some (mm, dd, yy)" by auto
  from mdy_match_SomeD [OF this] show "\<exists>mm a dd b yy. mdy_parts mm a dd b yy \<and> s = mm @ a # dd @ b # yy"
    by blast
next
  assume "\<exists>mm a dd b yy. mdy_parts mm a dd b yy \<and> s = mm @ a # dd @ b # yy"
  then show "mdy_match s \<noteq> None" by (auto simp: mdy_match_parts)
qed

lemma iso_match_parts:
  "iso_parts y m d \<Longrightarrow> iso_match (y @ ''-'' @ m @ ''-'' @ d)"
  by (simp add: iso_parts_def iso_match_def nth_append)

lemma iso_match_iff:
  "iso_match s \<longleftrightarrow> (\<exists>y m d. iso_parts y m d \<and> s = y @ ''-'' @ m @ ''-'' @ d)"
proof
  assume m: "iso_match s"
  let ?y = "take 4 s" and ?m = "take 2 (drop 5 s)" and ?d = "drop 8 s"
  have len: "length s = 10" and h1: "s ! 4 = CHR ''-''" and h2: "s ! 7 = CHR ''-''"
    using m by (simp_all add: iso_match_def)
  have parts: "iso_parts ?y ?m ?d"
    using m by (simp add: iso_match_def iso_parts_def)
  have a: "drop 4 s = s ! 4 # drop 5 s"
    using Cons_nth_drop_Suc [of 4 s] len by simp
  have b: "drop 7 s = s ! 7 # drop 8 s"
    using Cons_nth_drop_Suc [of 7 s] len by simp
  have c: "drop 5 s = take 2 (drop 5 s) @ drop 7 s"
    using append_take_drop_id [of 2 "drop 5 s"] by simp
  have "s = ?y @ drop 4 s" by simp
  also have "\<dots> = ?y @ ''-'' @ ?m @ ''-'' @ ?d"
    using a b c h1 h2 by simp
  finally show "\<exists>y m d. iso_parts y m d \<and> s = y @ ''-'' @ m @ ''-'' @ d"
    using parts by blast
next
  assume "\<exists>y m d. iso_parts y m d \<and> s = y @ ''-'' @ m @ ''-'' @ d"
  then show "iso_match s" using iso_match_parts by blast
qed

lemma mdy_not_iso:
  assumes "mdy_parts mm a dd b yy"
  shows "\<not> iso_match (mm @ a # dd @ b # yy)"
proof -
  have "(mm @ a # dd @ b # yy) ! 1 = a \<or> (mm @ a # dd @ b # yy) ! 2 = a"
    using assms by (auto simp: mdy_parts_def nth_append length_Suc_conv)
  moreover have "\<not> is_digit a" using assms by (simp add: mdy_parts_def sep_not_digit)
  moreover have "is_digit (s ! 1) \<and> is_digit (s ! 2)" if "iso_match s" for s
  proof -
    from that have "list_all is_digit (take 4 s)" "length s = 10"
      by (simp_all add: iso_match_def)
    then have "\<forall>i<4. is_digit (take 4 s ! i)"
      by (simp add: list_all_length)
    then show ?thesis by simp
  qed
  ultimately show ?thesis by metis
qed

lemma normalizeDOB_mdy:
  assumes "mdy_parts mm a dd b yy"
  shows "normalizeDOB (mm @ a # dd @ b # yy) =
           (if length yy = 2 then ''19'' @ yy else padStart 4 (CHR ''0'') yy) @ ''-'' @
           padStart 2 (CHR ''0'') mm @ ''-'' @ padStart 2 (CHR ''0'') dd"
  using assms mdy_not_iso [OF assms] mdy_match_parts [OF assms]
  by (simp add: normalizeDOB_def padStart_def)

lemma normalizeDOB_other:
  assumes "\<not> iso_match s" and "mdy_match s = None"
  shows "normalizeDOB s = s"
  using assms by (simp add: normalizeDOB_def)

lemma normalizeDOB_result_iso:
  assumes "mdy_parts mm a dd b yy"
  shows "iso_match (normalizeDOB (mm @ a # dd @ b # yy))"
proof -
  have "iso_parts (if length yy = 2 then ''19'' @ yy else padStart 4 (CHR ''0'') yy)
          (padStart 2 (CHR ''0'') mm) (padStart 2 (CHR ''0'') dd)"
    using assms by (auto simp: mdy_parts_def iso_parts_def padStart_def is_digit_def)
  from iso_match_parts [OF this] show ?thesis
    by (simp add: normalizeDOB_mdy [OF assms])
qed

text \<open>
  C5. \<open>normalizeDOB\<close> maps \<open>01/01/1975\<close> and \<open>01/01/75\<close> to \<open>1975-01-01\<close>. Every
  input \<open>mm a dd b yy\<close> accepted by the second regular expression is rewritten to
  year, month and day joined by hyphens, month and day padded to two digits, and the year
  is \<open>19\<close> followed by \<open>yy\<close> exactly when \<open>yy\<close> has two digits (otherwise \<open>yy\<close> padded
  with zeros to four). A string that neither regular expression accepts is returned
  unchanged.
\<close>

theorem normalizeDOB_month_day_year:
  "normalizeDOB ''01/01/1975'' = ''1975-01-01'' \<and>
   normalizeDOB ''01/01/75'' = ''1975-01-01'' \<and>
   (mdy_parts mm a dd b yy \<longrightarrow>
      normalizeDOB (mm @ a # dd @ b # yy) =
        (if length yy = 2 then ''19'' @ yy else padStart 4 (CHR ''0'') yy) @ ''-'' @
        padStart 2 (CHR ''0'') mm @ ''-'' @ padStart 2 (CHR ''0'') dd) \<and>
   ((\<nexists>y m d. iso_parts y m d \<and> s = y @ ''-'' @ m @ ''-'' @ d) \<and>
    (\<nexists>mm a dd b yy. mdy_parts mm a dd b yy \<and> s = mm @ a # dd @ b # yy) \<longrightarrow>
      normalizeDOB s = s)"
proof (intro conjI impI)
  show "normalizeDOB ''01/01/1975'' = ''1975-01-01''" by code_simp
  show "normalizeDOB ''01/01/75'' = ''1975-01-01''" by code_simp
next
  assume "mdy_parts mm a dd b yy"
  then show "normalizeDOB (mm @ a # dd @ b # yy) =
        (if length yy = 2 then ''19'' @ yy else padStart 4 (CHR ''0'') yy) @ ''-'' @
        padStart 2 (CHR ''0'') mm @ ''-'' @ padStart 2 (CHR ''0'') dd"
    by (rule normalizeDOB_mdy)
next
  assume "(\<nexists>y m d. iso_parts y m d \<and> s = y @ ''-'' @ m @ ''-'' @ d) \<and>
    (\<nexists>mm a dd b yy. mdy_parts mm a dd b yy \<and> s = mm @ a # dd @ b # yy)"
  then have i: "\<not> iso_match s" and m: "\<not> mdy_match s \<noteq> None"
    unfolding iso_match_iff mdy_match_iff by simp_all
  from m have "mdy_match s = None" by blast
  with i show "normalizeDOB s = s" by (rule normalizeDOB_other)
qed

theorem normalizeDOB_month_day_year_witness:
  "mdy_parts ''3'' (CHR ''-'') ''14'' (CHR ''/'') ''99'' \<and>
   normalizeDOB ''3-14/99'' = ''1999-03-14'' \<and>
   mdy_parts ''12'' (CHR ''/'') ''5'' (CHR ''/'') ''2001'' \<and>
   normalizeDOB ''12/5/2001'' = ''2001-12-05'' \<and>
   normalizeDOB ''March 3rd'' = ''March 3rd''"
proof -
  have p1: "mdy_parts ''3'' (CHR ''-'') ''14'' (CHR ''/'') ''99''" by code_simp
  have p2: "mdy_parts ''12'' (CHR ''/'') ''5'' (CHR ''/'') ''2001''" by code_simp
  have n1: "\<not> iso_match ''March 3rd''" by code_simp
  have n2: "mdy_match ''March 3rd'' = None" by code_simp
  have n: "(\<nexists>y m d. iso_parts y m d \<and> ''March 3rd'' = y @ ''-'' @ m @ ''-'' @ d) \<and>
    (\<nexists>mm a dd b yy. mdy_parts mm a dd b yy \<and> ''March 3rd'' = mm @ a # dd @ b # yy)"
    using n1 n2 unfolding iso_match_iff [symmetric] mdy_match_iff [symmetric] by simp
  show ?thesis
    using p1 p2 n
      normalizeDOB_month_day_year [of "''3''" "CHR ''-''" "''14''" "CHR ''/''" "''99''" "''March 3rd''"]
      normalizeDOB_month_day_year [of "''12''" "CHR ''/''" "''5''" "CHR ''/''" "''2001''" "''March 3rd''"]
    by (simp add: padStart_def)
qed

text \<open>
  C6. A string of the form \<open>YYYY-MM-DD\<close> (four digits, hyphen, two digits, hyphen, two
  digits) is returned unchanged, and normalising twice is the same as normalising once,
  for every string.
\<close>

theorem normalizeDOB_idempotent:
  "(iso_parts y m d \<longrightarrow> normalizeDOB (y @ ''-'' @ m @ ''-'' @ d) = y @ ''-'' @ m @ ''-'' @ d) \<and>
   normalizeDOB (normalizeDOB s) = normalizeDOB s"
proof
  show "iso_parts y m d \<longrightarrow> normalizeDOB (y @ ''-'' @ m @ ''-'' @ d) = y @ ''-'' @ m @ ''-'' @ d"
    using iso_match_parts [of y m d] by (simp add: normalizeDOB_def)
  show "normalizeDOB (normalizeDOB s) = normalizeDOB s"
  proof (cases "iso_match s")
    case True
    then show ?thesis by (simp add: normalizeDOB_def)
  next
    case False
    show ?thesis
    proof (cases "mdy_match s")
      case None
      with False show ?thesis by (simp add: normalizeDOB_other)
    next
      case (Some t)
      obtain mm dd yy where t: "t = (mm, dd, yy)" by (cases t)
      from mdy_match_SomeD [OF Some [unfolded t]] obtain a b
        where s: "s = mm @ a # dd @ b # yy" and p: "mdy_parts mm a dd b yy" by blast
      from normalizeDOB_result_iso [OF p] show ?thesis
        unfolding s by (simp add: normalizeDOB_def [of "normalizeDOB (mm @ a # dd @ b # yy)"])
    qed
  qed
qed

theorem normalizeDOB_idempotent_witness:
  "iso_parts ''1979'' ''11'' ''02'' \<and> normalizeDOB ''1979-11-02'' = ''1979-11-02'' \<and>
   normalizeDOB (normalizeDOB ''1/2/75'') = normalizeDOB ''1/2/75'' \<and>
   normalizeDOB ''1/2/75'' = ''1975-01-02''"
proof -
  have p: "iso_parts ''1979'' ''11'' ''02''" by code_simp
  have e: "normalizeDOB ''1/2/75'' = ''1975-01-02''" by code_simp
  show ?thesis
    using p e normalizeDOB_idempotent [of "''1979''" "''11''" "''02''" "''1/2/75''"] by simp
qed

text \<open>
  C10. An input \<open>mm a dd b yy\<close> accepted by the second regular expression whose year has
  exactly three digits is rewritten with the year padded by one zero: \<open>1/2/975\<close> becomes
  \<open>0975-01-02\<close>. The result does not start with \<open>19\<close> and differs from the input.
\<close>

theorem normalizeDOB_three_digit_year:
  "normalizeDOB ''1/2/975'' = ''0975-01-02'' \<and>
   (mdy_parts mm a dd b yy \<and> length yy = 3 \<longrightarrow>
      normalizeDOB (mm @ a # dd @ b # yy) =
        CHR ''0'' # yy @ ''-'' @ padStart 2 (CHR ''0'') mm @ ''-'' @ padStart 2 (CHR ''0'') dd \<and>
      take 2 (normalizeDOB (mm @ a # dd @ b # yy)) \<noteq> ''19'' \<and>
      normalizeDOB (mm @ a # dd @ b # yy) \<noteq> mm @ a # dd @ b # yy)"
proof (intro conjI impI)
  show "normalizeDOB ''1/2/975'' = ''0975-01-02''" by code_simp
next
  assume h: "mdy_parts mm a dd b yy \<and> length yy = 3"
  then have p: "mdy_parts mm a dd b yy" and l: "length yy = 3" by simp_all
  show r: "normalizeDOB (mm @ a # dd @ b # yy) =
        CHR ''0'' # yy @ ''-'' @ padStart 2 (CHR ''0'') mm @ ''-'' @ padStart 2 (CHR ''0'') dd"
    using l by (simp add: normalizeDOB_mdy [OF p] padStart_def)
  obtain c cs where yy: "yy = c # cs" using l by (cases yy) auto
  show "take 2 (normalizeDOB (mm @ a # dd @ b # yy)) \<noteq> ''19''"
    unfolding r by (simp add: yy)
  show "normalizeDOB (mm @ a # dd @ b # yy) \<noteq> mm @ a # dd @ b # yy"
    using normalizeDOB_result_iso [OF p] mdy_not_iso [OF p] by metis
qed

theorem normalizeDOB_three_digit_year_witness:
  "mdy_parts ''11'' (CHR ''-'') ''7'' (CHR ''-'') ''803'' \<and> length ''803'' = 3 \<and>
   normalizeDOB ''11-7-803'' = ''0803-11-07'' \<and>
   take 2 (normalizeDOB ''11-7-803'') \<noteq> ''19'' \<and>
   normalizeDOB ''11-7-803'' \<noteq> ''11-7-803''"
proof -
  have p: "mdy_parts ''11'' (CHR ''-'') ''7'' (CHR ''-'') ''803''" by code_simp
  show ?thesis
    using p normalizeDOB_three_digit_year [of "''11''" "CHR ''-''" "''7''" "CHR ''-''" "''803''"]
    by (simp add: padStart_def)
qed

section \<open>Properties of the Submission, Verifier and Reviewer steps\<close>

lemma js_toString_failure: "js_toString v = Inl e \<Longrightarrow> e = TypeError"
  by (cases v) (auto simp: Let_def split: if_splits)

lemma isl_js_toString: "isl (js_toString v) \<longleftrightarrow> js_toString v = Inl TypeError"
  by (cases "js_toString v") (auto dest: js_toString_failure)

lemma isl_issue_note: "isl (issue_note i) \<longleftrightarrow> js_toString (message i) = Inl TypeError"
  by (cases "js_toString (message i)") (auto simp: issue_note_def dest: js_toString_failure)

lemma submissionAgent_raises:
  assumes "\<exists>i \<in> set issue_list. js_toString (message i) = Inl TypeError"
  shows "submissionAgent claim issue_list suggested lgs = Inl TypeError"
  using assms by (auto simp: submissionAgent_def Let_def list_ex_iff isl_issue_note)

lemma submissionAgent_result:
  assumes "\<forall>i \<in> set issue_list. js_toString (message i) \<noteq> Inl TypeError"
  shows "submissionAgent claim issue_list suggested lgs =
     Inr (\<lparr>patient = patientName claim,
            SubmissionDraft.dob = dob claim,
            SubmissionDraft.insuranceId = insuranceId claim,
            SubmissionDraft.procedure = procedure claim,
            SubmissionDraft.cptCode = (case suggested of Some s \<Rightarrow> Some s | None \<Rightarrow> cptCode claim),
            status = (if list_ex (\<lambda>i. severity i = Error) issue_list then BLOCKED else READY),
            draft_notes = map projr (map issue_note issue_list)\<rparr>,
          pushLog lgs \<lparr>agent = ''SubmissionAgent'', step = ''draft'',
                       detail = ''Prepared submission draft.''\<rparr>)"
proof -
  from assms have "\<not> list_ex isl (map issue_note issue_list)"
    by (simp add: list_ex_iff isl_issue_note)
  then show ?thesis
    by (simp add: submissionAgent_def SubmissionDraftSchema_parse_def Let_def)
qed

text \<open>
  C1. For every claim, issue list and suggested code: if every message of the list is a
  string, as the declared type of an issue says, the Submission step returns a draft, and
  the draft's status is BLOCKED if and only if some issue of the list has severity
  \<open>error\<close>, and READY if and only if none has. The same holds for every issue list whose
  messages can be converted to strings. When some message cannot be converted, the step
  raises a \<open>TypeError\<close> and there is no draft. So every draft the step returns has the
  status the claim states.
\<close>

theorem submissionAgent_status:
  "((\<forall>i \<in> set issue_list. \<exists>m. message i = JStr m) \<longrightarrow>
      (\<exists>d lgs'. submissionAgent claim issue_list suggested lgs = Inr (d, lgs') \<and>
         (status d = BLOCKED \<longleftrightarrow> (\<exists>i \<in> set issue_list. severity i = Error)) \<and>
         (status d = READY \<longleftrightarrow> \<not> (\<exists>i \<in> set issue_list. severity i = Error)))) \<and>
   ((\<forall>i \<in> set issue_list. js_toString (message i) \<noteq> Inl TypeError) \<longrightarrow>
      (\<exists>d lgs'. submissionAgent claim issue_list suggested lgs = Inr (d, lgs') \<and>
         (status d = BLOCKED \<longleftrightarrow> (\<exists>i \<in> set issue_list. severity i = Error)) \<and>
         (status d = READY \<longleftrightarrow> \<not> (\<exists>i \<in> set issue_list. severity i = Error)))) \<and>
   ((\<exists>i \<in> set issue_list. js_toString (message i) = Inl TypeError) \<longrightarrow>
      submissionAgent claim issue_list suggested lgs = Inl TypeError) \<and>
   (\<forall>d lgs'. submissionAgent claim issue_list suggested lgs = Inr (d, lgs') \<longrightarrow>
      (status d = BLOCKED \<longleftrightarrow> (\<exists>i \<in> set issue_list. severity i = Error)) \<and>
      (status d = READY \<longleftrightarrow> \<not> (\<exists>i \<in> set issue_list. severity i = Error)))"
proof -
  have conv: "\<exists>d lgs'. submissionAgent claim issue_list suggested lgs = Inr (d, lgs') \<and>
         (status d = BLOCKED \<longleftrightarrow> (\<exists>i \<in> set issue_list. severity i = Error)) \<and>
         (status d = READY \<longleftrightarrow> \<not> (\<exists>i \<in> set issue_list. severity i = Error))"
    if "\<forall>i \<in> set issue_list. js_toString (message i) \<noteq> Inl TypeError"
    using that by (simp add: submissionAgent_result list_ex_iff)
  have strings: "\<forall>i \<in> set issue_list. js_toString (message i) \<noteq> Inl TypeError"
    if "\<forall>i \<in> set issue_list. \<exists>m. message i = JStr m"
    using that by auto
  have raises: "submissionAgent claim issue_list suggested lgs = Inl TypeError"
    if "\<exists>i \<in> set issue_list. js_toString (message i) = Inl TypeError"
    using that by (rule submissionAgent_raises)
  have returned: "(status d = BLOCKED \<longleftrightarrow> (\<exists>i \<in> set issue_list. severity i = Error)) \<and>
      (status d = READY \<longleftrightarrow> \<not> (\<exists>i \<in> set issue_list. severity i = Error))"
    if r: "submissionAgent claim issue_list suggested lgs = Inr (d, lgs')" for d lgs'
  proof (cases "\<exists>i \<in> set issue_list. js_toString (message i) = Inl TypeError")
    case True
    from raises [OF True] r show ?thesis by simp
  next
    case False
    then have "\<forall>i \<in> set issue_list. js_toString (message i) \<noteq> Inl TypeError" by blast
    from conv [OF this] r show ?thesis by auto
  qed
  show ?thesis
    using conv strings raises returned by blast
qed

theorem submissionAgent_status_witness:
  "(\<exists>d lgs'.
      submissionAgent john_doe
        [\<lparr>field = ''dob'', message = JStr ''DOB missing or invalid format.'', severity = Warn\<rparr>,
         \<lparr>field = ''insuranceId'', message = JStr ''Missing insurance ID.'', severity = Error\<rparr>]
        None [] = Inr (d, lgs') \<and> status d = BLOCKED) \<and>
   (\<exists>d lgs'.
      submissionAgent john_doe
        [\<lparr>field = ''dob'', message = JStr ''DOB missing or invalid format.'', severity = Warn\<rparr>,
         \<lparr>field = ''general'', message = JArr [JNum ''1'', JNull], severity = Info\<rparr>]
        None [] = Inr (d, lgs') \<and> status d = READY) \<and>
   submissionAgent john_doe
     [\<lparr>field = ''general'', message = JObj [(''toString'', JNum ''1'')], severity = Info\<rparr>]
     None [] = Inl TypeError"
proof -
  have a: "\<forall>i \<in> set [\<lparr>field = ''dob'', message = JStr ''DOB missing or invalid format.'', severity = Warn\<rparr>,
         \<lparr>field = ''insuranceId'', message = JStr ''Missing insurance ID.'', severity = Error\<rparr>].
          \<exists>m. message i = JStr m"
    by simp
  have a': "\<exists>i \<in> set [\<lparr>field = ''dob'', message = JStr ''DOB missing or invalid format.'', severity = Warn\<rparr>,
         \<lparr>field = ''insuranceId'', message = JStr ''Missing insurance ID.'', severity = Error\<rparr>].
          severity i = Error"
    by simp
  have b: "\<forall>i \<in> set [\<lparr>field = ''dob'', message = JStr ''DOB missing or invalid format.'', severity = Warn\<rparr>,
         \<lparr>field = ''general'', message = JArr [JNum ''1'', JNull], severity = Info\<rparr>].
          js_toString (message i) \<noteq> Inl TypeError"
    by (simp add: Let_def)
  have b': "\<not> (\<exists>i \<in> set [\<lparr>field = ''dob'', message = JStr ''DOB missing or invalid format.'', severity = Warn\<rparr>,
         \<lparr>field = ''general'', message = JArr [JNum ''1'', JNull], severity = Info\<rparr>].
          severity i = Error)"
    by simp
  have c: "\<exists>i \<in> set [\<lparr>field = ''general'', message = JObj [(''toString'', JNum ''1'')], severity = Info\<rparr>].
          js_toString (message i) = Inl TypeError"
    by simp
  from a a' have 1: "\<exists>d lgs'.
      submissionAgent john_doe
        [\<lparr>field = ''dob'', message = JStr ''DOB missing or invalid format.'', severity = Warn\<rparr>,
         \<lparr>field = ''insuranceId'', message = JStr ''Missing insurance ID.'', severity = Error\<rparr>]
        None [] = Inr (d, lgs') \<and> status d = BLOCKED"
    using submissionAgent_status [of
        "[\<lparr>field = ''dob'', message = JStr ''DOB missing or invalid format.'', severity = Warn\<rparr>,
          \<lparr>field = ''insuranceId'', message = JStr ''Missing insurance ID.'', severity = Error\<rparr>]"
        john_doe None "[]"]
    by blast
  from b b' have 2: "\<exists>d lgs'.
      submissionAgent john_doe
        [\<lparr>field = ''dob'', message = JStr ''DOB missing or invalid format.'', severity = Warn\<rparr>,
         \<lparr>field = ''general'', message = JArr [JNum ''1'', JNull], severity = Info\<rparr>]
        None [] = Inr (d, lgs') \<and> status d = READY"
    using submissionAgent_status [of
        "[\<lparr>field = ''dob'', message = JStr ''DOB missing or invalid format.'', severity = Warn\<rparr>,
          \<lparr>field = ''general'', message = JArr [JNum ''1'', JNull], severity = Info\<rparr>]"
        john_doe None "[]"]
    by blast
  from c have 3: "submissionAgent john_doe
     [\<lparr>field = ''general'', message = JObj [(''toString'', JNum ''1'')], severity = Info\<rparr>]
     None [] = Inl TypeError"
    using submissionAgent_status [of
        "[\<lparr>field = ''general'', message = JObj [(''toString'', JNum ''1'')], severity = Info\<rparr>]"
        john_doe None "[]"]
    by blast
  from 1 2 3 show ?thesis by blast
qed

lemma verifier_issues:
  "issues (fst (verifierAgent claim reply lgs)) =
     (if insuranceId claim = None \<or> insuranceId claim = Some '''' \<or>
         trim (the (insuranceId claim)) = ''''
      then [\<lparr>field = ''insuranceId'', message = JStr ''Missing insurance ID.'',
              severity = Error\<rparr>] else []) @
     (if dob claim = ''''
      then [\<lparr>field = ''dob'', message = JStr ''DOB missing or invalid format.'',
              severity = Warn\<rparr>] else []) @
     (if patientName claim = ''''
      then [\<lparr>field = ''patientName'', message = JStr ''Patient name missing.'',
              severity = Error\<rparr>] else []) @
     (if procedure claim = ''''
      then [\<lparr>field = ''procedure'', message = JStr ''Procedure missing.'',
              severity = Error\<rparr>] else []) @
     map (\<lambda>n. \<lparr>field = ''general'', message = n, severity = Info\<rparr>) (verifier_notes reply)"
  by (simp add: verifierAgent_def Let_def)

lemma filter_general:
  "f \<noteq> ''general'' \<Longrightarrow>
   filter (\<lambda>i. field i = f) (map (\<lambda>n. \<lparr>field = ''general'', message = n, severity = s\<rparr>) ns) = []"
  by (induction ns) auto

lemma verifier_issues_convert:
  "(\<exists>i \<in> set (issues (fst (verifierAgent claim reply lgs))). js_toString (message i) = Inl TypeError)
     \<longleftrightarrow> (\<exists>n \<in> set (verifier_notes reply). js_toString n = Inl TypeError)"
proof -
  define det where "det =
     (if insuranceId claim = None \<or> insuranceId claim = Some [] \<or>
         trim (the (insuranceId claim)) = []
      then [\<lparr>field = ''insuranceId'', message = JStr ''Missing insurance ID.'',
              severity = Error\<rparr>] else []) @
     (if dob claim = []
      then [\<lparr>field = ''dob'', message = JStr ''DOB missing or invalid format.'',
              severity = Warn\<rparr>] else []) @
     (if patientName claim = []
      then [\<lparr>field = ''patientName'', message = JStr ''Patient name missing.'',
              severity = Error\<rparr>] else []) @
     (if procedure claim = []
      then [\<lparr>field = ''procedure'', message = JStr ''Procedure missing.'',
              severity = Error\<rparr>] else [])"
  have i: "issues (fst (verifierAgent claim reply lgs)) =
      det @ map (\<lambda>n. \<lparr>field = ''general'', message = n, severity = Info\<rparr>) (verifier_notes reply)"
    by (simp add: verifier_issues det_def)
  have d: "\<forall>i \<in> set det. js_toString (message i) \<noteq> Inl TypeError"
    by (auto simp: det_def)
  have "(\<exists>i \<in> set (map (\<lambda>n. \<lparr>field = ''general'', message = n, severity = Info\<rparr>)
                         (verifier_notes reply)). js_toString (message i) = Inl TypeError)
          \<longleftrightarrow> (\<exists>n \<in> set (verifier_notes reply). js_toString n = Inl TypeError)"
    by simp
  with d show ?thesis
    unfolding i set_append bex_Un by blast
qed

text \<open>
  What holds of the Verifier and the Submission step for a claim with a missing field.
  Whatever the language model answers: if the claim's \<open>insuranceId\<close> is absent or empty,
  the Verifier's issue list holds exactly one issue for the field \<open>insuranceId\<close>, of
  severity \<open>error\<close>; likewise for an empty \<open>patientName\<close> and an empty \<open>procedure\<close>; an
  empty \<open>dob\<close> gives exactly one issue for \<open>dob\<close>, of severity \<open>warn\<close>. In each of the
  three \<open>error\<close> cases the Submission step, given that issue list, returns a draft of
  status BLOCKED when every note of the model can be converted to a string, and raises a
  \<open>TypeError\<close> when one cannot.
\<close>

lemma verifier_missing_field_issue:
  "(falsy (insuranceId claim) \<longrightarrow>
      filter (\<lambda>i. field i = ''insuranceId'') (issues (fst (verifierAgent claim reply lgs))) =
        [\<lparr>field = ''insuranceId'', message = JStr ''Missing insurance ID.'', severity = Error\<rparr>]) \<and>
   (patientName claim = '''' \<longrightarrow>
      filter (\<lambda>i. field i = ''patientName'') (issues (fst (verifierAgent claim reply lgs))) =
        [\<lparr>field = ''patientName'', message = JStr ''Patient name missing.'', severity = Error\<rparr>]) \<and>
   (procedure claim = '''' \<longrightarrow>
      filter (\<lambda>i. field i = ''procedure'') (issues (fst (verifierAgent claim reply lgs))) =
        [\<lparr>field = ''procedure'', message = JStr ''Procedure missing.'', severity = Error\<rparr>]) \<and>
   (dob claim = '''' \<longrightarrow>
      filter (\<lambda>i. field i = ''dob'') (issues (fst (verifierAgent claim reply lgs))) =
        [\<lparr>field = ''dob'', message = JStr ''DOB missing or invalid format.'', severity = Warn\<rparr>])"
  by (auto simp: verifier_issues falsy_def filter_general)

lemma missing_field_submission:
  assumes "falsy (insuranceId claim) \<or> patientName claim = '''' \<or> procedure claim = ''''"
  shows "(if \<exists>n \<in> set (verifier_notes reply). js_toString n = Inl TypeError
          then submissionAgent claim (issues (fst (verifierAgent claim reply lgs))) suggested lgs' =
                 Inl TypeError
          else \<exists>d lgs''. submissionAgent claim (issues (fst (verifierAgent claim reply lgs)))
                     suggested lgs' = Inr (d, lgs'') \<and> status d = BLOCKED)"
proof (cases "\<exists>n \<in> set (verifier_notes reply). js_toString n = Inl TypeError")
  case True
  then have "\<exists>i \<in> set (issues (fst (verifierAgent claim reply lgs))). js_toString (message i) = Inl TypeError"
    by (simp add: verifier_issues_convert)
  from submissionAgent_raises [OF this] True show ?thesis by simp
next
  case False
  then have c: "\<forall>i \<in> set (issues (fst (verifierAgent claim reply lgs))). js_toString (message i) \<noteq> Inl TypeError"
    using verifier_issues_convert [of claim reply lgs] by blast
  have "list_ex (\<lambda>i. severity i = Error) (issues (fst (verifierAgent claim reply lgs)))"
    using assms by (auto simp: verifier_issues falsy_def)
  with False show ?thesis
    by (simp add: submissionAgent_result [OF c])
qed

text \<open>
  C2. The claim holds of the Verifier, and fails in the Submission step for one kind of
  answer of the language model. For the first scenario's claim, whose \<open>insuranceId\<close> is
  empty, and the answer \<open>{"notes": [{"toString": 1}]}\<close>, the Verifier emits the
  \<open>error\<close> issue for \<open>insuranceId\<close> and passes the note on as the message of an \<open>info\<close>
  issue, without the \<open>typeof ... === "string"\<close> test the Coder and the Reviewer apply to
  their answers. The Submission step then raises a \<open>TypeError\<close> while it prints that
  message, so no draft of status BLOCKED results, and the whole run aborts.
\<close>

theorem verifier_note_object_aborts_submission:
  "issues (fst (verifierAgent john_doe
       (Inr (JObj [(''notes'', JArr [JObj [(''toString'', JNum ''1'')]])])) [])) =
     [\<lparr>field = ''insuranceId'', message = JStr ''Missing insurance ID.'', severity = Error\<rparr>,
      \<lparr>field = ''general'', message = JObj [(''toString'', JNum ''1'')], severity = Info\<rparr>] \<and>
   submissionAgent john_doe
     (issues (fst (verifierAgent john_doe
        (Inr (JObj [(''notes'', JArr [JObj [(''toString'', JNum ''1'')]])])) [])))
     (Some ''73721'') [] = Inl TypeError \<and>
   runWorkflow john_doe_json
     ((all_offline 0 1500)\<lparr>verify_reply :=
         Inr (JObj [(''notes'', JArr [JObj [(''toString'', JNum ''1'')]])])\<rparr>) = Inl TypeError"
  by code_simp

text \<open>
  C3. The Reviewer's denial risk is \<open>high\<close> for a BLOCKED draft, \<open>medium\<close> for a READY
  draft whose \<open>insuranceId\<close> or \<open>cptCode\<close> is missing (\<open>null\<close> or the empty string), and
  \<open>low\<close> for every other draft; the answer of the language model has no influence on it.
\<close>

theorem reviewer_risk:
  "(status s = BLOCKED \<longrightarrow> denialRisk (fst (reviewerAgent s reply lgs)) = High) \<and>
   (status s = READY \<and>
      (falsy (SubmissionDraft.insuranceId s) \<or> falsy (SubmissionDraft.cptCode s)) \<longrightarrow>
        denialRisk (fst (reviewerAgent s reply lgs)) = Medium) \<and>
   (status s = READY \<and>
      \<not> falsy (SubmissionDraft.insuranceId s) \<and> \<not> falsy (SubmissionDraft.cptCode s) \<longrightarrow>
        denialRisk (fst (reviewerAgent s reply lgs)) = Low) \<and>
   denialRisk (fst (reviewerAgent s reply lgs)) = denialRisk (fst (reviewerAgent s reply' lgs'))"
  by (simp add: reviewerAgent_def)

theorem reviewer_risk_witness:
  "denialRisk (fst (reviewerAgent (aaron_lee_draft None READY) offline [])) = Medium \<and>
   denialRisk (fst (reviewerAgent (aaron_lee_draft (Some ''72148'') READY) offline [])) = Low \<and>
   denialRisk (fst (reviewerAgent (aaron_lee_draft (Some ''72148'') BLOCKED) offline [])) = High"
  using
    reviewer_risk [of "aaron_lee_draft None READY" offline "[]"]
    reviewer_risk [of "aaron_lee_draft (Some ''72148'') READY" offline "[]"]
    reviewer_risk [of "aaron_lee_draft (Some ''72148'') BLOCKED" offline "[]"]
  by (simp add: falsy_def aaron_lee_draft_def)

section \<open>Properties of the Coder step\<close>

lemma Object_entries_CPT_REF:
  "Object_entries CPT_REF =
     [(''70551'', \<lparr>label = ''MRI Brain w/o contrast'',
                   procedures = [''mri brain'', ''brain mri'']\<rparr>),
      (''72148'', \<lparr>label = ''MRI Lumbar Spine w/o contrast'',
                   procedures = [''mri spine'', ''lumbar mri'']\<rparr>),
      (''73721'', \<lparr>label = ''MRI Lower Extremity w/o contrast'',
                   procedures = [''mri knee'', ''knee mri'']\<rparr>)]"
  by code_simp

lemma scan_CPT_REF:
  "map_option fst (find (\<lambda>kv. matches proc (snd kv)) (Object_entries CPT_REF)) =
     (if string_includes proc ''mri brain'' \<or> string_includes proc ''brain mri'' then Some ''70551''
      else if string_includes proc ''mri spine'' \<or> string_includes proc ''lumbar mri'' then Some ''72148''
      else if string_includes proc ''mri knee'' \<or> string_includes proc ''knee mri'' then Some ''73721''
      else None)"
  by (simp add: Object_entries_CPT_REF matches_def)

lemma proc_MRI_Knee: "trim (toLowerCase ''MRI Knee'') = ''mri knee''"
  by code_simp

lemma scan_mri_knee:
  "map_option fst (find (\<lambda>kv. matches ''mri knee'' (snd kv)) (Object_entries CPT_REF)) = Some ''73721''"
  by code_simp

lemma CPT_REF_get_73721:
  "CPT_REF_get ''73721'' =
     Own \<lparr>label = ''MRI Lower Extremity w/o contrast'', procedures = [''mri knee'', ''knee mri'']\<rparr>"
  by code_simp

lemma matches_mri_knee:
  "matches ''mri knee''
     \<lparr>label = ''MRI Lower Extremity w/o contrast'', procedures = [''mri knee'', ''knee mri'']\<rparr>"
  by code_simp

lemma coder_valid_no_code: "falsy (cptCode claim) \<Longrightarrow> coder_valid claim = Inr False"
  by (auto simp: coder_valid_def falsy_def)

lemma CPT_REF_get_not_Inherited:
  "k \<notin> set Object_prototype_names \<Longrightarrow> CPT_REF_get k \<noteq> Inherited"
  by (simp add: CPT_REF_get_def split: option.splits)

lemma coder_valid_total:
  assumes "\<And>code. cptCode claim = Some code \<Longrightarrow> code \<notin> set Object_prototype_names"
  shows "\<exists>v. coder_valid claim = Inr v"
proof (cases "cptCode claim")
  case None
  then show ?thesis by (auto simp: coder_valid_def)
next
  case (Some code)
  with assms have "CPT_REF_get code \<noteq> Inherited"
    by (simp add: CPT_REF_get_not_Inherited)
  with Some show ?thesis
    by (cases "CPT_REF_get code") (auto simp: coder_valid_def Let_def)
qed

lemma coderAgent_result:
  "coder_valid claim = Inr v \<Longrightarrow>
   coderAgent claim reply lgs =
     Inr (\<lparr>suggestedCpt = coder_suggested claim v, justification = coder_justification reply,
            valid = v\<rparr>,
          pushLog lgs \<lparr>agent = ''CoderAgent'', step = ''code-validate'',
                       detail = ''Validated/suggested CPT code.''\<rparr>)"
  by (simp add: coderAgent_def)

text \<open>
  A supplied code that names a member of \<open>Object.prototype\<close> makes the validity test
  read \<open>.some\<close> of \<open>undefined\<close>: the Coder raises before it reaches the scan.
\<close>

lemma coder_inherited_name_raises:
  "coderAgent (john_doe\<lparr>cptCode := Some ''constructor''\<rparr>) reply [] = Inl TypeError"
  by code_simp

lemma map_of_CPT_REF:
  "map_of CPT_REF code =
     (if code = ''73721''
      then Some \<lparr>label = ''MRI Lower Extremity w/o contrast'',
                  procedures = [''mri knee'', ''knee mri'']\<rparr>
      else if code = ''70551''
      then Some \<lparr>label = ''MRI Brain w/o contrast'', procedures = [''mri brain'', ''brain mri'']\<rparr>
      else if code = ''72148''
      then Some \<lparr>label = ''MRI Lumbar Spine w/o contrast'',
                  procedures = [''mri spine'', ''lumbar mri'']\<rparr>
      else None)"
  by (simp add: CPT_REF_def)

lemma coder_valid_explicit:
  assumes "\<forall>code. cptCode claim = Some code \<longrightarrow> code \<notin> set Object_prototype_names"
  shows "coder_valid claim =
     Inr (cptCode claim = Some ''70551'' \<and>
            (string_includes (trim (toLowerCase (procedure claim))) ''mri brain'' \<or>
             string_includes (trim (toLowerCase (procedure claim))) ''brain mri'') \<or>
          cptCode claim = Some ''72148'' \<and>
            (string_includes (trim (toLowerCase (procedure claim))) ''mri spine'' \<or>
             string_includes (trim (toLowerCase (procedure claim))) ''lumbar mri'') \<or>
          cptCode claim = Some ''73721'' \<and>
            (string_includes (trim (toLowerCase (procedure claim))) ''mri knee'' \<or>
             string_includes (trim (toLowerCase (procedure claim))) ''knee mri''))"
proof (cases "cptCode claim")
  case None
  then show ?thesis by (simp add: coder_valid_def)
next
  case (Some code)
  with assms have n: "code \<notin> set Object_prototype_names" by simp
  show ?thesis
    using Some n
    by (simp add: coder_valid_def CPT_REF_get_def map_of_CPT_REF matches_def Let_def)
qed

text \<open>
  C4, as the code has it. For the procedure text \<open>MRI Knee\<close> and no supplied code the
  Coder suggests \<open>73721\<close>; for \<open>MRI Knee\<close> with the supplied code \<open>73721\<close> the flag
  \<open>valid\<close> is true and the suggestion is the supplied code. In general, for a supplied
  code that is not the name of a member of \<open>Object.prototype\<close>, the Coder returns. The
  supplied code validates when it is a key of the table and one of that key's substrings
  occurs in the lower-cased, trimmed procedure text; \<open>valid\<close> is true exactly then, and
  the suggestion is the supplied code. When the supplied code does not validate (none is
  supplied, it is no key of the table, or none of its substrings occurs), the suggestion
  is the first code, going through the table in ascending numeric order of the codes
  (\<open>70551\<close>, \<open>72148\<close>, \<open>73721\<close>), one of whose substrings occurs in that text, and
  \<open>null\<close> when there is none.
\<close>

theorem coder_suggestion:
  "(procedure claim = ''MRI Knee'' \<and> falsy (cptCode claim) \<longrightarrow>
      (\<exists>r lgs'. coderAgent claim reply lgs = Inr (r, lgs') \<and> \<not> valid r \<and>
         suggestedCpt r = Some ''73721'')) \<and>
   (procedure claim = ''MRI Knee'' \<and> cptCode claim = Some ''73721'' \<longrightarrow>
      (\<exists>r lgs'. coderAgent claim reply lgs = Inr (r, lgs') \<and> valid r \<and>
         suggestedCpt r = cptCode claim)) \<and>
   ((\<forall>code. cptCode claim = Some code \<longrightarrow> code \<notin> set Object_prototype_names) \<longrightarrow>
      (let proc = trim (toLowerCase (procedure claim));
           brain = (string_includes proc ''mri brain'' \<or> string_includes proc ''brain mri'');
           spine = (string_includes proc ''mri spine'' \<or> string_includes proc ''lumbar mri'');
           knee = (string_includes proc ''mri knee'' \<or> string_includes proc ''knee mri'');
           validates = (cptCode claim = Some ''70551'' \<and> brain \<or>
                        cptCode claim = Some ''72148'' \<and> spine \<or>
                        cptCode claim = Some ''73721'' \<and> knee)
       in \<exists>r lgs'. coderAgent claim reply lgs = Inr (r, lgs') \<and>
            (valid r \<longleftrightarrow> validates) \<and>
            suggestedCpt r =
              (if validates then cptCode claim
               else if brain then Some ''70551''
               else if spine then Some ''72148''
               else if knee then Some ''73721''
               else None)))"
proof (intro conjI impI)
  assume h: "procedure claim = ''MRI Knee'' \<and> falsy (cptCode claim)"
  then have v: "coder_valid claim = Inr False" by (simp add: coder_valid_no_code)
  have "coder_suggested claim False = Some ''73721''"
    using h by (simp add: coder_suggested_def proc_MRI_Knee scan_mri_knee)
  then show "\<exists>r lgs'. coderAgent claim reply lgs = Inr (r, lgs') \<and> \<not> valid r \<and>
         suggestedCpt r = Some ''73721''"
    by (simp add: coderAgent_result [OF v])
next
  assume h: "procedure claim = ''MRI Knee'' \<and> cptCode claim = Some ''73721''"
  then have v: "coder_valid claim = Inr True"
    by (simp add: coder_valid_def proc_MRI_Knee CPT_REF_get_73721 matches_mri_knee)
  show "\<exists>r lgs'. coderAgent claim reply lgs = Inr (r, lgs') \<and> valid r \<and>
         suggestedCpt r = cptCode claim"
    by (simp add: coderAgent_result [OF v] coder_suggested_def)
next
  assume h: "\<forall>code. cptCode claim = Some code \<longrightarrow> code \<notin> set Object_prototype_names"
  show "let proc = trim (toLowerCase (procedure claim));
           brain = (string_includes proc ''mri brain'' \<or> string_includes proc ''brain mri'');
           spine = (string_includes proc ''mri spine'' \<or> string_includes proc ''lumbar mri'');
           knee = (string_includes proc ''mri knee'' \<or> string_includes proc ''knee mri'');
           validates = (cptCode claim = Some ''70551'' \<and> brain \<or>
                        cptCode claim = Some ''72148'' \<and> spine \<or>
                        cptCode claim = Some ''73721'' \<and> knee)
       in \<exists>r lgs'. coderAgent claim reply lgs = Inr (r, lgs') \<and>
            (valid r \<longleftrightarrow> validates) \<and>
            suggestedCpt r =
              (if validates then cptCode claim
               else if brain then Some ''70551''
               else if spine then Some ''72148''
               else if knee then Some ''73721''
               else None)"
    unfolding Let_def
    by (simp add: coderAgent_result [OF coder_valid_explicit [OF h]] coder_suggested_def
          scan_CPT_REF)
qed

lemma mri_brain_text:
  "trim (toLowerCase ''MRI Brain'') = ''mri brain''"
  "string_includes ''mri brain'' ''mri brain''"
  "\<not> string_includes ''mri brain'' ''mri knee''"
  "\<not> string_includes ''mri brain'' ''knee mri''"
  by code_simp+

theorem coder_suggestion_witness:
  "(\<exists>r lgs'. coderAgent (john_doe\<lparr>cptCode := None\<rparr>) offline [] = Inr (r, lgs') \<and>
      \<not> valid r \<and> suggestedCpt r = Some ''73721'') \<and>
   (\<exists>r lgs'. coderAgent john_doe offline [] = Inr (r, lgs') \<and> valid r \<and>
      suggestedCpt r = Some ''73721'') \<and>
   (\<exists>r lgs'. coderAgent (john_doe\<lparr>procedure := ''MRI Brain''\<rparr>) offline [] = Inr (r, lgs') \<and>
      \<not> valid r \<and> suggestedCpt r = Some ''70551'')"
proof -
  have a: "procedure (john_doe\<lparr>cptCode := None\<rparr>) = ''MRI Knee'' \<and>
           falsy (cptCode (john_doe\<lparr>cptCode := None\<rparr>))"
    by (simp add: john_doe_def falsy_def)
  have b: "procedure john_doe = ''MRI Knee'' \<and> cptCode john_doe = Some ''73721''"
    by (simp add: john_doe_def)
  have c: "\<forall>code. cptCode (john_doe\<lparr>procedure := ''MRI Brain''\<rparr>) = Some code \<longrightarrow>
             code \<notin> set Object_prototype_names"
    by (simp add: john_doe_def Object_prototype_names_def)
  have f: "procedure (john_doe\<lparr>procedure := ''MRI Brain''\<rparr>) = ''MRI Brain''"
    "cptCode (john_doe\<lparr>procedure := ''MRI Brain''\<rparr>) = Some ''73721''"
    by (simp_all add: john_doe_def)
  from a have 1: "\<exists>r lgs'. coderAgent (john_doe\<lparr>cptCode := None\<rparr>) offline [] = Inr (r, lgs') \<and>
      \<not> valid r \<and> suggestedCpt r = Some ''73721''"
    using coder_suggestion [of "john_doe\<lparr>cptCode := None\<rparr>" offline "[]"] by blast
  from b have 2: "\<exists>r lgs'. coderAgent john_doe offline [] = Inr (r, lgs') \<and> valid r \<and>
      suggestedCpt r = Some ''73721''"
    using coder_suggestion [of john_doe offline "[]"] by auto
  from c have 3: "\<exists>r lgs'. coderAgent (john_doe\<lparr>procedure := ''MRI Brain''\<rparr>) offline [] = Inr (r, lgs') \<and>
      \<not> valid r \<and> suggestedCpt r = Some ''70551''"
    using coder_suggestion [of "john_doe\<lparr>procedure := ''MRI Brain''\<rparr>" offline "[]"]
    unfolding Let_def f mri_brain_text(1) by (simp add: mri_brain_text)
  from 1 2 3 show ?thesis by blast
qed

text \<open>
  The claim as the specification words it fails: for the procedure text
  \<open>Brain MRI Knee\<close> and no supplied code, the first match in the order the table is
  written is \<open>73721\<close>, and the Coder suggests \<open>70551\<close>.
\<close>

theorem coder_declaration_order_counterexample:
  "coderAgent \<lparr>patientName = ''Jane Roe'', dob = ''1980-02-03'', insuranceId = Some ''AB-1'',
                procedure = ''Brain MRI Knee'', cptCode = None\<rparr> offline [] =
     Inr (\<lparr>suggestedCpt = Some ''70551'',
            justification = ''Heuristic CPT validation completed.'', valid = False\<rparr>,
          [\<lparr>agent = ''CoderAgent'', step = ''code-validate'',
             detail = ''Validated/suggested CPT code.''\<rparr>]) \<and>
   first_match_in_declaration_order (trim (toLowerCase ''Brain MRI Knee'')) = Some ''73721''"
  by code_simp

section \<open>Properties of the double arithmetic\<close>

lemma ilog2_nonneg: "0 \<le> ilog2 n"
proof (induction n rule: ilog2.induct)
  case (1 n)
  then show ?case by (cases "n \<le> 1") (simp_all add: ilog2.simps [of n])
qed

lemma ilog2_bounds:
  "1 \<le> n \<Longrightarrow> 2 ^ nat (ilog2 n) \<le> n \<and> n < 2 * 2 ^ nat (ilog2 n)"
proof (induction n rule: ilog2.induct)
  case (1 n)
  show ?case
  proof (cases "n \<le> 1")
    case True
    with "1.prems" have "n = 1" by simp
    then show ?thesis by (simp add: ilog2.simps [of 1])
  next
    case False
    then have h: "1 \<le> n div 2" by simp
    from "1.IH" [OF False h]
    have ih: "2 ^ nat (ilog2 (n div 2)) \<le> n div 2" "n div 2 < 2 * 2 ^ nat (ilog2 (n div 2))"
      by simp_all
    have e: "nat (ilog2 n) = Suc (nat (ilog2 (n div 2)))"
      using False ilog2_nonneg [of "n div 2"] by (simp add: ilog2.simps [of n])
    from ih show ?thesis unfolding e by simp linarith
  qed
qed

text \<open>\<open>floor_log2\<close> is the binary logarithm rounded down.\<close>

lemma floor_log2_bounds:
  assumes "0 < x"
  shows "power_int 2 (floor_log2 x) \<le> x \<and> x < power_int 2 (floor_log2 x + 1)"
proof -
  obtain a b where q: "quotient_of x = (a, b)" by (cases "quotient_of x")
  then have x: "x = of_int a / of_int b" and b: "0 < b"
    by (simp_all add: quotient_of_div quotient_of_denom_pos)
  with assms have a: "0 < a" by (simp add: zero_less_divide_iff)
  define i where "i = nat (ilog2 a)"
  define j where "j = nat (ilog2 b)"
  have ia: "ilog2 a = int i" and jb: "ilog2 b = int j"
    by (simp_all add: i_def j_def ilog2_nonneg)
  from ilog2_bounds [of a] a have ai: "2 ^ i \<le> a" "a < 2 * 2 ^ i" by (simp_all add: i_def)
  from ilog2_bounds [of b] b have bj: "2 ^ j \<le> b" "b < 2 * 2 ^ j" by (simp_all add: j_def)
  have "(of_int (2 ^ i) :: rat) \<le> of_int a" "(of_int a :: rat) < of_int (2 * 2 ^ i)"
    using ai by (simp_all only: of_int_le_iff of_int_less_iff)
  then have ai': "(2 :: rat) ^ i \<le> of_int a" "(of_int a :: rat) < 2 * 2 ^ i"
    by simp_all
  have "(of_int (2 ^ j) :: rat) \<le> of_int b" "(of_int b :: rat) < of_int (2 * 2 ^ j)"
    using bj by (simp_all only: of_int_le_iff of_int_less_iff)
  then have bj': "(2 :: rat) ^ j \<le> of_int b" "(of_int b :: rat) < 2 * 2 ^ j"
    by simp_all
  have bp: "(0 :: rat) < of_int b" using b by simp
  have p: "power_int (2 :: rat) (int i - int j) = 2 ^ i / 2 ^ j"
    by (simp add: power_int_diff)
  have p1: "power_int (2 :: rat) (int i - int j + 1) = 2 * 2 ^ i / 2 ^ j"
    by (simp add: power_int_add p)
  have pm: "power_int (2 :: rat) (int i - int j - 1) = 2 ^ i / (2 * 2 ^ j)"
    by (simp add: power_int_diff p)
  have up: "x < 2 * 2 ^ i / 2 ^ j"
  proof -
    have "x \<le> of_int a / 2 ^ j"
      unfolding x using bj'(1) a by (simp add: frac_le)
    also have "\<dots> < 2 * 2 ^ i / 2 ^ j"
      using ai'(2) by (simp add: divide_strict_right_mono)
    finally show ?thesis .
  qed
  have lo: "2 ^ i / (2 * 2 ^ j) \<le> x"
  proof -
    have "(2 :: rat) ^ i / (2 * 2 ^ j) \<le> 2 ^ i / of_int b"
      using bj'(2) bp by (simp add: frac_le)
    also have "\<dots> \<le> x"
      unfolding x using ai'(1) bp by (simp add: divide_right_mono)
    finally show ?thesis .
  qed
  show ?thesis
  proof (cases "power_int 2 (int i - int j) \<le> x")
    case True
    then have "floor_log2 x = int i - int j"
      by (simp add: floor_log2_def q ia jb)
    with True up show ?thesis by (simp add: p1)
  next
    case False
    then have f: "floor_log2 x = int i - int j - 1"
      by (simp add: floor_log2_def q ia jb)
    from False have "x < power_int 2 (int i - int j)" by simp
    with lo show ?thesis unfolding f by (simp add: pm)
  qed
qed

lemma round_half_even_error: "\<bar>of_int (round_half_even x) - x\<bar> \<le> 1 / 2"
proof -
  have "of_int \<lfloor>x\<rfloor> \<le> x" "x < of_int \<lfloor>x\<rfloor> + 1" by linarith+
  then show ?thesis
    by (auto simp: round_half_even_def Let_def abs_le_iff)
qed

lemma round_half_even_tie:
  "x - of_int \<lfloor>x\<rfloor> = 1 / 2 \<Longrightarrow> even (round_half_even x)"
  by (simp add: round_half_even_def Let_def)

text \<open>
  \<open>fl x\<close> is a whole multiple of the spacing \<open>2^p\<close> of the doubles around \<open>x\<close>, at most
  half that spacing away from \<open>x\<close>, and the even multiple when \<open>x\<close> lies half-way.
\<close>

lemma fl_nearest:
  assumes "x \<noteq> 0"
  shows "fl x = of_int (round_half_even (x / power_int 2 (ulp_exponent x))) *
                  power_int 2 (ulp_exponent x)"
    and "\<bar>fl x - x\<bar> \<le> power_int 2 (ulp_exponent x) / 2"
proof -
  define u :: rat where "u = power_int 2 (ulp_exponent x)"
  have u: "0 < u" by (simp add: u_def zero_less_power_int)
  show f: "fl x = of_int (round_half_even (x / power_int 2 (ulp_exponent x))) *
                  power_int 2 (ulp_exponent x)"
    using assms by (simp add: fl_def Let_def)
  have "fl x - x = (of_int (round_half_even (x / u)) - x / u) * u"
    using u unfolding f u_def [symmetric] by (simp add: algebra_simps)
  then have "\<bar>fl x - x\<bar> = \<bar>of_int (round_half_even (x / u)) - x / u\<bar> * u"
    using u by (simp add: abs_mult)
  also have "\<dots> \<le> 1 / 2 * u"
    using round_half_even_error [of "x / u"] u by (simp add: mult_right_mono)
  finally show "\<bar>fl x - x\<bar> \<le> power_int 2 (ulp_exponent x) / 2"
    by (simp add: u_def)
qed

text \<open>Some doubles: one tenth, one third, and the largest whole number below \<open>2^53\<close>.\<close>

lemma fl_examples:
  "fl (1 / 10) = 3602879701896397 / 2 ^ 55"
  "fl (1 / 3) = 6004799503160661 / 2 ^ 54"
  "fl 9007199254740991 = 9007199254740991"
  "fl 9007199254740993 = 9007199254740992"
  "fl 1500 = 1500"
  by code_simp+

section \<open>Properties of the orchestrator\<close>

lemma baseline_72: "double_div (double_mul 12 60) 10 = 72"
  by code_simp

lemma runWorkflow_metrics:
  assumes "runWorkflow input e = Inr r"
  shows "metrics r =
     \<lparr>baselineSeconds = 72,
       automatedSeconds =
         max 1 (Math_round (double_div (double_sub (fl (now_after e)) (fl (now_before e))) 1000)),
       timeSavedPercent =
         Math_round (double_mul (double_sub 1 (double_div
           (of_int (max 1 (Math_round
              (double_div (double_sub (fl (now_after e)) (fl (now_before e))) 1000)))) 72)) 100),
       cleanClaimRate = (if status (submission r) = READY then 98 else 82)\<rparr>"
  using assms unfolding runWorkflow_def
  by (auto split: sum.splits prod.splits simp: Let_def baseline_72)

lemma Math_round_bounds:
  "of_int (Math_round x) \<le> x + 1 / 2 \<and> x + 1 / 2 < of_int (Math_round x) + 1"
  unfolding Math_round_def by linarith

text \<open>
  C7, as the code has it. Let \<open>d\<close> be the elapsed time in milliseconds, the double
  difference of the two clock readings, and \<open>q\<close> the double quotient of \<open>d\<close> by 1000,
  which is at most half a unit in the last place away from \<open>d / 1000\<close>. When a run
  returns, \<open>automatedSeconds\<close> is \<open>q\<close> rounded to the nearest whole number, a tie
  going up, and at least 1: it is 1 for \<open>q\<close> below one half, and otherwise the whole
  number \<open>s\<close> with \<open>s - 1/2 \<le> q < s + 1/2\<close>. The baseline is the constant 72, and the
  clean-claim rate is 98 for a READY draft and 82 otherwise.
\<close>

theorem automated_seconds_rounded:
  "runWorkflow input e = Inr r \<longrightarrow>
     (let d = double_sub (fl (now_after e)) (fl (now_before e));
          q = double_div d 1000
      in automatedSeconds (metrics r) = max 1 (Math_round q) \<and>
         1 \<le> automatedSeconds (metrics r) \<and>
         (q < 1 / 2 \<longrightarrow> automatedSeconds (metrics r) = 1) \<and>
         (1 / 2 \<le> q \<longrightarrow>
            of_int (automatedSeconds (metrics r)) - 1 / 2 \<le> q \<and>
            q < of_int (automatedSeconds (metrics r)) + 1 / 2) \<and>
         \<bar>q - d / 1000\<bar> \<le> power_int 2 (ulp_exponent (d / 1000)) / 2) \<and>
     baselineSeconds (metrics r) = 72 \<and>
     cleanClaimRate (metrics r) = (if status (submission r) = READY then 98 else 82)"
proof
  assume run: "runWorkflow input e = Inr r"
  define d where "d = double_sub (fl (now_after e)) (fl (now_before e))"
  define q where "q = double_div (double_sub (fl (now_after e)) (fl (now_before e))) 1000"
  define s where "s = automatedSeconds (metrics r)"
  have s: "s = max 1 (Math_round q)"
    by (simp add: s_def q_def runWorkflow_metrics [OF run])
  have b: "of_int (Math_round q) \<le> q + 1 / 2" "q + 1 / 2 < of_int (Math_round q) + 1"
    using Math_round_bounds [of q] by simp_all
  have small: "s = 1" if "q < 1 / 2"
  proof -
    from that b(1) have "(of_int (Math_round q) :: rat) < 1" by linarith
    then have "Math_round q < 1" by linarith
    then show ?thesis by (simp add: s)
  qed
  have large: "of_int s - 1 / 2 \<le> q \<and> q < of_int s + 1 / 2" if "1 / 2 \<le> q"
  proof -
    from that b(2) have "(0 :: rat) < of_int (Math_round q)" by linarith
    then have "1 \<le> Math_round q" by linarith
    then have "s = Math_round q" by (simp add: s)
    with b show ?thesis by simp
  qed
  have qd: "q = fl (d / 1000)"
    by (simp add: q_def d_def double_div_def)
  have near: "\<bar>q - d / 1000\<bar> \<le> power_int 2 (ulp_exponent (d / 1000)) / 2"
  proof (cases "d = 0")
    case True
    have "(0 :: rat) < power_int 2 (ulp_exponent 0)"
      by (simp add: zero_less_power_int)
    with True show ?thesis by (simp add: qd fl_def)
  next
    case False
    then have "d / 1000 \<noteq> 0" by simp
    from fl_nearest(2) [OF this] show ?thesis
      by (simp add: qd)
  qed
  have "s = max 1 (Math_round q) \<and> 1 \<le> s \<and> (q < 1 / 2 \<longrightarrow> s = 1) \<and>
        (1 / 2 \<le> q \<longrightarrow> of_int s - 1 / 2 \<le> q \<and> q < of_int s + 1 / 2) \<and>
        \<bar>q - d / 1000\<bar> \<le> power_int 2 (ulp_exponent (d / 1000)) / 2"
    using s small large near by simp
  then show "(let d = double_sub (fl (now_after e)) (fl (now_before e));
          q = double_div d 1000
      in automatedSeconds (metrics r) = max 1 (Math_round q) \<and>
         1 \<le> automatedSeconds (metrics r) \<and>
         (q < 1 / 2 \<longrightarrow> automatedSeconds (metrics r) = 1) \<and>
         (1 / 2 \<le> q \<longrightarrow>
            of_int (automatedSeconds (metrics r)) - 1 / 2 \<le> q \<and>
            q < of_int (automatedSeconds (metrics r)) + 1 / 2) \<and>
         \<bar>q - d / 1000\<bar> \<le> power_int 2 (ulp_exponent (d / 1000)) / 2) \<and>
     baselineSeconds (metrics r) = 72 \<and>
     cleanClaimRate (metrics r) = (if status (submission r) = READY then 98 else 82)"
    unfolding Let_def s_def q_def d_def by (simp add: runWorkflow_metrics [OF run])
qed

text \<open>
  The clock readings 0.1 and 1500.1 are 1500 milliseconds apart as doubles, although the
  two decimal numerals are not doubles themselves.
\<close>

lemma elapsed_1500:
  "double_sub (fl (15001 / 10)) (fl (1 / 10)) = 1500" "double_div 1500 1000 = 3 / 2"
  by code_simp+

lemma aaron_lee_run_returns:
  "\<not> isl (runWorkflow aaron_lee_json (all_offline (1 / 10) (15001 / 10)))"
  by code_simp

theorem automated_seconds_rounded_witness:
  "\<exists>r. runWorkflow aaron_lee_json (all_offline (1 / 10) (15001 / 10)) = Inr r \<and>
       automatedSeconds (metrics r) = 2 \<and> baselineSeconds (metrics r) = 72 \<and>
       cleanClaimRate (metrics r) = (if status (submission r) = READY then 98 else 82)"
proof -
  obtain r where r: "runWorkflow aaron_lee_json (all_offline (1 / 10) (15001 / 10)) = Inr r"
    using aaron_lee_run_returns
    by (cases "runWorkflow aaron_lee_json (all_offline (1 / 10) (15001 / 10))") auto
  have "max 1 (Math_round (double_div (double_sub
          (fl (now_after (all_offline (1 / 10) (15001 / 10))))
          (fl (now_before (all_offline (1 / 10) (15001 / 10))))) 1000)) = 2"
    by (simp add: all_offline_def elapsed_1500 Math_round_def)
  with r automated_seconds_rounded [of aaron_lee_json "all_offline (1 / 10) (15001 / 10)" r]
  show ?thesis by (simp add: Let_def)
qed

text \<open>
  The claim as the specification words it fails: after 1500 milliseconds the code
  reports 2 seconds, and 1500 milliseconds floored to whole seconds is 1.
\<close>

theorem automated_seconds_floor_counterexample:
  "\<not> isl (runWorkflow aaron_lee_json (all_offline 0 1500)) \<and>
   automatedSeconds (metrics (projr (runWorkflow aaron_lee_json (all_offline 0 1500)))) = 2 \<and>
   double_sub (fl 1500) (fl 0) = 1500 \<and>
   floored_seconds 1500 = 1"
  by code_simp






section \<open>Properties of the route handlers\<close>

lemma respond_cases:
  "respond input e =
     (case runWorkflow input e of
        Inl err \<Rightarrow> NextResponse_json (ErrorBody err) 400
      | Inr r \<Rightarrow>
          (case WorkflowResponseSchema_parse r of
             Inl err \<Rightarrow> NextResponse_json (ErrorBody err) 400
           | Inr v \<Rightarrow> NextResponse_json (Payload v) 200))"
  by (simp add: respond_def)

lemma respond_status: "response_status (respond input e) = 200 \<or> response_status (respond input e) = 400"
  by (simp add: respond_def response_status_def split: sum.splits)

text \<open>
  C9, as the code has it. Both handlers answer with status 200 or 400 and nothing else.
  For a request body \<open>b\<close> that parses: when \<open>runWorkflow\<close> returns a result that passes
  the schema check, both answer 200 with that result; when \<open>runWorkflow\<close> throws, or its
  result fails the schema check, both answer 400 with the message of the error. For a
  request body that does not parse, the handler of part_001 answers 400 with the message
  of that error, and the handler of part_000 answers what it answers for the body \<open>{}\<close>.
\<close>

theorem route_handler_status:
  "(response_status (POST_part_000 rq e) = 200 \<or> response_status (POST_part_000 rq e) = 400) \<and>
   (response_status (POST_part_001 rq e) = 200 \<or> response_status (POST_part_001 rq e) = 400) \<and>
   (rq = Inr b \<and> runWorkflow (input_of b) e = Inr r \<and> WorkflowResponseSchema_parse r = Inr r' \<longrightarrow>
      POST_part_000 rq e = NextResponse_json (Payload r') 200 \<and>
      POST_part_001 rq e = NextResponse_json (Payload r') 200) \<and>
   (rq = Inr b \<and> runWorkflow (input_of b) e = Inl err \<longrightarrow>
      POST_part_000 rq e = NextResponse_json (ErrorBody err) 400 \<and>
      POST_part_001 rq e = NextResponse_json (ErrorBody err) 400) \<and>
   (rq = Inr b \<and> runWorkflow (input_of b) e = Inr r \<and> WorkflowResponseSchema_parse r = Inl err \<longrightarrow>
      POST_part_000 rq e = NextResponse_json (ErrorBody err) 400 \<and>
      POST_part_001 rq e = NextResponse_json (ErrorBody err) 400) \<and>
   (rq = Inl err \<longrightarrow>
      POST_part_001 rq e = NextResponse_json (ErrorBody err) 400 \<and>
      POST_part_000 rq e = POST_part_000 (Inr (JObj [])) e)"
proof (intro conjI impI)
  show "response_status (POST_part_000 rq e) = 200 \<or> response_status (POST_part_000 rq e) = 400"
    by (simp add: POST_part_000_def respond_status)
  show "response_status (POST_part_001 rq e) = 200 \<or> response_status (POST_part_001 rq e) = 400"
    using respond_status by (cases rq) (simp_all add: POST_part_001_def response_status_def)
next
  assume h: "rq = Inr b \<and> runWorkflow (input_of b) e = Inr r \<and> WorkflowResponseSchema_parse r = Inr r'"
  then show "POST_part_000 rq e = NextResponse_json (Payload r') 200"
    and "POST_part_001 rq e = NextResponse_json (Payload r') 200"
    by (simp_all add: POST_part_000_def POST_part_001_def respond_cases)
next
  assume h: "rq = Inr b \<and> runWorkflow (input_of b) e = Inl err"
  then show "POST_part_000 rq e = NextResponse_json (ErrorBody err) 400"
    and "POST_part_001 rq e = NextResponse_json (ErrorBody err) 400"
    by (simp_all add: POST_part_000_def POST_part_001_def respond_cases)
next
  assume h: "rq = Inr b \<and> runWorkflow (input_of b) e = Inr r \<and> WorkflowResponseSchema_parse r = Inl err"
  then show "POST_part_000 rq e = NextResponse_json (ErrorBody err) 400"
    and "POST_part_001 rq e = NextResponse_json (ErrorBody err) 400"
    by (simp_all add: POST_part_000_def POST_part_001_def respond_cases)
next
  assume h: "rq = Inl err"
  then show "POST_part_001 rq e = NextResponse_json (ErrorBody err) 400"
    and "POST_part_000 rq e = POST_part_000 (Inr (JObj [])) e"
    by (simp_all add: POST_part_000_def POST_part_001_def)
qed

lemma john_doe_run_returns:
  "\<not> isl (runWorkflow (input_of john_doe_json) (all_offline 0 1500)) \<and>
   \<not> isl (WorkflowResponseSchema_parse (projr (runWorkflow (input_of john_doe_json) (all_offline 0 1500))))"
  by code_simp

lemma number_input_fails:
  "runWorkflow (input_of (JNum ''42'')) (all_offline 0 1500) = Inl (Failed ''fetch failed'')"
  by code_simp

lemma note_of_wrong_type_fails:
  "\<not> isl (runWorkflow (input_of john_doe_json)
            ((all_offline 0 1500)\<lparr>verify_reply := Inr (JObj [(''notes'', JArr [JNum ''7''])])\<rparr>)) \<and>
   WorkflowResponseSchema_parse
     (projr (runWorkflow (input_of john_doe_json)
            ((all_offline 0 1500)\<lparr>verify_reply := Inr (JObj [(''notes'', JArr [JNum ''7''])])\<rparr>))) =
     Inl ZodError"
  by code_simp

theorem route_handler_status_witness:
  "response_status (POST_part_000 (Inr john_doe_json) (all_offline 0 1500)) = 200 \<and>
   response_status (POST_part_001 (Inr john_doe_json) (all_offline 0 1500)) = 200 \<and>
   POST_part_000 (Inr (JNum ''42'')) (all_offline 0 1500) =
     NextResponse_json (ErrorBody (Failed ''fetch failed'')) 400 \<and>
   POST_part_001 (Inr (JNum ''42'')) (all_offline 0 1500) =
     NextResponse_json (ErrorBody (Failed ''fetch failed'')) 400 \<and>
   POST_part_001 (Inr john_doe_json)
     ((all_offline 0 1500)\<lparr>verify_reply := Inr (JObj [(''notes'', JArr [JNum ''7''])])\<rparr>) =
     NextResponse_json (ErrorBody ZodError) 400 \<and>
   POST_part_001 (Inl (Failed ''Unexpected end of JSON input'')) (all_offline 0 1500) =
     NextResponse_json (ErrorBody (Failed ''Unexpected end of JSON input'')) 400"
proof -
  obtain r r' where r: "runWorkflow (input_of john_doe_json) (all_offline 0 1500) = Inr r"
    and r': "WorkflowResponseSchema_parse r = Inr r'"
    using john_doe_run_returns
    by (cases "runWorkflow (input_of john_doe_json) (all_offline 0 1500)";
        cases "WorkflowResponseSchema_parse (projr (runWorkflow (input_of john_doe_json) (all_offline 0 1500)))")
       auto
  obtain q where q: "runWorkflow (input_of john_doe_json)
            ((all_offline 0 1500)\<lparr>verify_reply := Inr (JObj [(''notes'', JArr [JNum ''7''])])\<rparr>) = Inr q"
    and q': "WorkflowResponseSchema_parse q = Inl ZodError"
    using note_of_wrong_type_fails
    by (cases "runWorkflow (input_of john_doe_json)
            ((all_offline 0 1500)\<lparr>verify_reply := Inr (JObj [(''notes'', JArr [JNum ''7''])])\<rparr>)")
       auto
  show ?thesis
    using r r' q q' number_input_fails
      route_handler_status [of "Inr john_doe_json" "all_offline 0 1500" john_doe_json r r']
      route_handler_status [of "Inr (JNum ''42'')" "all_offline 0 1500" "JNum ''42''" _ _
        "Failed ''fetch failed''"]
      route_handler_status [of "Inr john_doe_json"
        "(all_offline 0 1500)\<lparr>verify_reply := Inr (JObj [(''notes'', JArr [JNum ''7''])])\<rparr>"
        john_doe_json q _ ZodError]
      route_handler_status [of "Inl (Failed ''Unexpected end of JSON input'')" "all_offline 0 1500"
        _ _ _ "Failed ''Unexpected end of JSON input''"]
    by (simp add: response_status_def)
qed

text \<open>
  The claim as the specification words it fails for the handler of part_000: the request
  body does not parse, the language model turns the substituted \<open>{}\<close> into a complete
  claim, and the answer has status 200.
\<close>

theorem request_body_failure_counterexample:
  "response_status
     (POST_part_000 (Inl (Failed ''Unexpected end of JSON input''))
        ((all_offline 0 1500)\<lparr>parse_reply := Inr aaron_lee_json\<rparr>)) = 200"
  by code_simp

section \<open>The end-to-end scenarios of the specification\<close>

lemma parser_john_doe:
  "parserAgent john_doe_json reply [] =
     Inr (john_doe, [\<lparr>agent = ''ParserAgent'', step = ''parse-json'', detail = ''Parsed JSON claim.''\<rparr>])"
  by code_simp

lemma parser_aaron_lee:
  "parserAgent aaron_lee_json reply [] =
     Inr (aaron_lee, [\<lparr>agent = ''ParserAgent'', step = ''parse-json'', detail = ''Parsed JSON claim.''\<rparr>])"
  by code_simp

lemma coder_valid_john_doe: "coder_valid john_doe = Inr True"
  by code_simp

lemma coder_valid_aaron_lee: "coder_valid aaron_lee = Inr False"
  by code_simp

lemma coder_suggested_aaron_lee: "coder_suggested aaron_lee False = None"
  by code_simp

lemma john_doe_fields:
  "patientName john_doe = ''John Doe''" "dob john_doe = ''1975-01-01''"
  "insuranceId john_doe = Some []" "procedure john_doe = ''MRI Knee''"
  "cptCode john_doe = Some ''73721''"
  by (simp_all add: john_doe_def)

lemma aaron_lee_fields:
  "patientName aaron_lee = ''Aaron Lee''" "dob aaron_lee = ''1979-11-02''"
  "insuranceId aaron_lee = Some ''ZX-991144''" "procedure aaron_lee = ''MRI Lumbar Spine''"
  "cptCode aaron_lee = Some ''72148''"
  by (simp_all add: aaron_lee_def)

lemma trim_insurance_aaron_lee: "trim ''ZX-991144'' \<noteq> []"
  by code_simp

text \<open>
  Whatever the clock reads and whatever the language model answers, as long as every note
  it gives the Verifier can be converted to a string: the first scenario ends BLOCKED
  with risk \<open>high\<close>, the second READY with risk \<open>low\<close>, and the log holds one entry for
  each of the five steps, in their order.
\<close>

lemma scenario_issues_convert:
  assumes "\<forall>n \<in> set (verifier_notes (verify_reply e)). js_toString n \<noteq> Inl TypeError"
  shows "\<forall>i \<in> set (issues (fst (verifierAgent claim (verify_reply e) lgs))).
           js_toString (message i) \<noteq> Inl TypeError"
  using assms verifier_issues_convert [of claim "verify_reply e" lgs] by blast

lemma john_doe_scenario:
  assumes "\<forall>n \<in> set (verifier_notes (verify_reply e)). js_toString n \<noteq> Inl TypeError"
  shows "\<exists>r. runWorkflow john_doe_json e = Inr r \<and> status (submission r) = BLOCKED \<and>
       denialRisk (reviewer r) = High \<and>
       map agent (logs r) =
         [''ParserAgent'', ''VerifierAgent'', ''CoderAgent'', ''SubmissionAgent'', ''ReviewerAgent'']"
proof -
  obtain v l2 where v: "verifierAgent john_doe (verify_reply e)
      [\<lparr>agent = ''ParserAgent'', step = ''parse-json'', detail = ''Parsed JSON claim.''\<rparr>] = (v, l2)"
    by (cases "verifierAgent john_doe (verify_reply e)
      [\<lparr>agent = ''ParserAgent'', step = ''parse-json'', detail = ''Parsed JSON claim.''\<rparr>]")
  from scenario_issues_convert [OF assms, of john_doe
      "[\<lparr>agent = ''ParserAgent'', step = ''parse-json'', detail = ''Parsed JSON claim.''\<rparr>]"]
  have c: "\<forall>i \<in> set (issues v). js_toString (message i) \<noteq> Inl TypeError"
    by (simp add: v)
  have b: "list_ex (\<lambda>i. severity i = Error) (issues v)"
    using v by (auto simp: verifierAgent_def Let_def john_doe_fields)
  have l: "l2 = [\<lparr>agent = ''ParserAgent'', step = ''parse-json'', detail = ''Parsed JSON claim.''\<rparr>,
                 \<lparr>agent = ''VerifierAgent'', step = ''validate'',
                   detail = ''Validated fields & consistency.''\<rparr>]"
    using v by (auto simp: verifierAgent_def Let_def pushLog_def)
  show ?thesis
    unfolding runWorkflow_def
    by (simp add: parser_john_doe v coderAgent_result [OF coder_valid_john_doe]
          submissionAgent_result [OF c] b l reviewerAgent_def pushLog_def Let_def)
qed

lemma aaron_lee_scenario:
  assumes "\<forall>n \<in> set (verifier_notes (verify_reply e)). js_toString n \<noteq> Inl TypeError"
  shows "\<exists>r. runWorkflow aaron_lee_json e = Inr r \<and> status (submission r) = READY \<and>
       denialRisk (reviewer r) = Low \<and>
       map agent (logs r) =
         [''ParserAgent'', ''VerifierAgent'', ''CoderAgent'', ''SubmissionAgent'', ''ReviewerAgent'']"
proof -
  obtain v l2 where v: "verifierAgent aaron_lee (verify_reply e)
      [\<lparr>agent = ''ParserAgent'', step = ''parse-json'', detail = ''Parsed JSON claim.''\<rparr>] = (v, l2)"
    by (cases "verifierAgent aaron_lee (verify_reply e)
      [\<lparr>agent = ''ParserAgent'', step = ''parse-json'', detail = ''Parsed JSON claim.''\<rparr>]")
  from scenario_issues_convert [OF assms, of aaron_lee
      "[\<lparr>agent = ''ParserAgent'', step = ''parse-json'', detail = ''Parsed JSON claim.''\<rparr>]"]
  have c: "\<forall>i \<in> set (issues v). js_toString (message i) \<noteq> Inl TypeError"
    by (simp add: v)
  have b: "\<not> list_ex (\<lambda>i. severity i = Error) (issues v)"
    using v by (auto simp: verifierAgent_def Let_def aaron_lee_fields trim_insurance_aaron_lee
                  list_ex_iff)
  have l: "l2 = [\<lparr>agent = ''ParserAgent'', step = ''parse-json'', detail = ''Parsed JSON claim.''\<rparr>,
                 \<lparr>agent = ''VerifierAgent'', step = ''validate'',
                   detail = ''Validated fields & consistency.''\<rparr>]"
    using v by (auto simp: verifierAgent_def Let_def pushLog_def)
  show ?thesis
    unfolding runWorkflow_def
    by (simp add: parser_aaron_lee v coderAgent_result [OF coder_valid_aaron_lee]
          coder_suggested_aaron_lee submissionAgent_result [OF c] b l reviewerAgent_def
          pushLog_def Let_def aaron_lee_fields falsy_def)
qed


end
